theory Spec2Isabelle
  imports Complex_Main "HOL-Library.Sublist"
begin

section \<open>Protocol selection (src/index.js, getPort and isSFTP)\<close>

text \<open>
  JavaScript strings are modelled as \<open>string\<close>; a value that may be \<open>undefined\<close> is an
  \<open>option\<close>. \<open>host.includes('sftp')\<close> is the contiguous-substring test \<open>sublist\<close>,
  \<open>host.startsWith('sftp://')\<close> is \<open>prefix\<close>.
\<close>

definition str_includes :: "string \<Rightarrow> string \<Rightarrow> bool" where
  "str_includes s sub = sublist sub s"

definition startsWith :: "string \<Rightarrow> string \<Rightarrow> bool" where
  "startsWith s pre = prefix pre s"

text \<open>
  \<open>isSFTP(host)\<close> returns \<open>host && (host.includes('sftp') || host.startsWith('sftp://'))\<close>,
  used only as a condition. An undefined host and the empty string are falsy.
\<close>

definition isSFTP :: "string option \<Rightarrow> bool" where
  "isSFTP host =
     (case host of
        None \<Rightarrow> False
      | Some h \<Rightarrow> h \<noteq> [] \<and> (str_includes h ''sftp'' \<or> startsWith h ''sftp://''))"

text \<open>
  The configured port comes from JSON or from an environment variable: a number (not
  necessarily whole) or a string, or it is absent. \<open>if (configPort)\<close> is JavaScript
  truthiness: absent, \<open>0\<close> and the empty string are falsy.
\<close>

datatype port_value = PortNum real | PortStr string

definition truthy_port :: "port_value option \<Rightarrow> bool" where
  "truthy_port p =
     (case p of
        None \<Rightarrow> False
      | Some (PortNum n) \<Rightarrow> n \<noteq> 0
      | Some (PortStr s) \<Rightarrow> s \<noteq> [])"

text \<open>
  \<open>getPort(host, configPort)\<close>. The built-in \<open>parseInt\<close> is a parameter (\<open>None\<close> is
  NaN): it parses the leading integer of the text of its argument, which for a number is
  the number's decimal text.
\<close>

definition getPort :: "(port_value \<Rightarrow> int option) \<Rightarrow> string option \<Rightarrow> port_value option \<Rightarrow> int option" where
  "getPort parseInt host configPort =
     (if truthy_port configPort then
        (case configPort of
           Some v \<Rightarrow> parseInt v
         | None \<Rightarrow> None)
      else if (case host of
                 None \<Rightarrow> False
               | Some h \<Rightarrow> h \<noteq> [] \<and> (str_includes h ''sftp'' \<or> startsWith h ''sftp://''))
      then Some 22
      else Some 21)"

text \<open>The adapter chosen at every call site: \<open>useSFTP ? connectSFTP(..) : connectFTP(..)\<close>.\<close>

datatype adapter = SFTP | FTP

definition selectAdapter :: "string option \<Rightarrow> adapter" where
  "selectAdapter host = (if isSFTP host then SFTP else FTP)"

section \<open>Remote client and local file system\<close>

text \<open>
  One remote directory entry, with the fields the code reads from either client library:
  \<open>name\<close>, \<open>size\<close>; \<open>type\<close> (SFTP listing, \<open>'d'\<close> for a directory) and \<open>isDirectory\<close>
  (FTP listing); \<open>modifyTime\<close> (SFTP, milliseconds), \<open>modifiedAt\<close> (FTP, a Date, here its
  time value), \<open>rawModifiedAt\<close> (FTP, a string; the field holds the time value of
  \<open>new Date(rawModifiedAt)\<close>, \<open>None\<close> for an Invalid Date) and \<open>date\<close>. A field that is
  \<open>undefined\<close> is \<open>None\<close>.
\<close>

record rfile =
  rf_name :: string
  rf_type :: string
  rf_isDirectory :: bool
  rf_size :: nat
  rf_modifyTime :: "int option"
  rf_modifiedAt :: "int option"
  rf_rawModifiedAt :: "int option"
  rf_date :: "string option"

text \<open>\<open>client.put\<close> takes a local path or a Buffer as its source.\<close>

datatype put_source = FromPath string | FromBuffer string

text \<open>
  The connected client (\<open>basic-ftp\<close> or \<open>ssh2-sftp-client\<close>) is a parameter: each method
  the code calls takes the connection state \<open>'s\<close> and returns the new one with either the
  message of the error it throws (\<open>Inl\<close>) or its value (\<open>Inr\<close>).
\<close>

record 's client =
  cl_list :: "string \<Rightarrow> 's \<Rightarrow> (string + rfile list) \<times> 's"
  cl_stat :: "string \<Rightarrow> 's \<Rightarrow> (string + rfile) \<times> 's"
  cl_mkdir :: "string \<Rightarrow> bool \<Rightarrow> 's \<Rightarrow> (string + unit) \<times> 's"
  cl_ensureDir :: "string \<Rightarrow> 's \<Rightarrow> (string + unit) \<times> 's"
  cl_put :: "put_source \<Rightarrow> string \<Rightarrow> 's \<Rightarrow> (string + unit) \<times> 's"
  cl_uploadFrom :: "string \<Rightarrow> string \<Rightarrow> 's \<Rightarrow> (string + unit) \<times> 's"
  cl_get :: "string \<Rightarrow> 's \<Rightarrow> (string + string) \<times> 's"

text \<open>
  The Node built-ins and the \<open>minimatch\<close> library are parameters too. \<open>minimatch E p pat b\<close>
  is \<open>minimatch(p, pat, {dot: true, matchBase: b})\<close>; \<open>fs_readFile\<close> returns the error
  message or the content; \<open>string_trim\<close> is \<open>String.prototype.trim\<close>, which strips the
  white space and line terminators of Unicode at both ends.
\<close>

record env =
  path_join :: "string \<Rightarrow> string \<Rightarrow> string"
  path_relative :: "string \<Rightarrow> string \<Rightarrow> string"
  path_basename :: "string \<Rightarrow> string"
  minimatch :: "string \<Rightarrow> string \<Rightarrow> bool \<Rightarrow> bool"
  fs_readFile :: "string \<Rightarrow> string + string"
  string_trim :: "string \<Rightarrow> string"

text \<open>
  The local tree that \<open>fs.readdir(.., {withFileTypes: true})\<close> and \<open>fs.stat\<close> walk. A
  directory entry whose \<open>isDirectory()\<close> is false carries the result of \<open>fs.stat\<close> on it
  (error message or \<open>mtime\<close> in milliseconds); a directory carries the result of
  \<open>fs.readdir\<close> on it.
\<close>

datatype lnode = LFile string "string + int" | LDir string "string + lnode list"

fun l_name :: "lnode \<Rightarrow> string" where
  "l_name (LFile n _) = n"
| "l_name (LDir n _) = n"

section \<open>Ignore rules (loadIgnorePatterns, shouldIgnore)\<close>

definition DEFAULT_IGNORE_PATTERNS :: "string list" where
  "DEFAULT_IGNORE_PATTERNS =
     [''node_modules/**'', ''.git/**'', ''.env'', ''.env.*'', ''*.log'', ''.DS_Store'',
      ''Thumbs.db'', ''.vscode/**'', ''.idea/**'', ''*.swp'', ''*.swo'', ''*~'', ''.ftpconfig'',
      ''npm-debug.log*'', ''yarn-debug.log*'', ''yarn-error.log*'', ''.npm'', ''.cache/**'',
      ''coverage/**'', ''.nyc_output/**'', ''*.pid'', ''*.seed'', ''*.pid.lock'']"

text \<open>\<open>content.split('\n')\<close>: never empty, one more piece than there are line feeds.\<close>

fun split_lines :: "string \<Rightarrow> string list" where
  "split_lines [] = [[]]"
| "split_lines (c # cs) =
     (if c = CHR 0x0A then [] # split_lines cs
      else (case split_lines cs of
              [] \<Rightarrow> [[c]]
            | l # ls \<Rightarrow> (c # l) # ls))"

text \<open>
  The lines of an ignore file that become patterns:
  \<open>content.split('\n').map(line => line.trim()).filter(line => line && !line.startsWith('#'))\<close>.
\<close>

definition ignore_file_patterns :: "env \<Rightarrow> string \<Rightarrow> string list" where
  "ignore_file_patterns E content =
     filter (\<lambda>line. line \<noteq> [] \<and> \<not> startsWith line ''#'')
            (map (string_trim E) (split_lines content))"

definition loadIgnorePatterns :: "env \<Rightarrow> string \<Rightarrow> string list" where
  "loadIgnorePatterns E localPath =
     (let patterns = DEFAULT_IGNORE_PATTERNS;
          patterns1 = (case fs_readFile E (path_join E localPath ''.ftpignore'') of
                         Inl e \<Rightarrow> patterns
                       | Inr ftpignoreContent \<Rightarrow> patterns @ ignore_file_patterns E ftpignoreContent)
      in (case fs_readFile E (path_join E localPath ''.gitignore'') of
            Inl e \<Rightarrow> patterns1
          | Inr gitignoreContent \<Rightarrow> patterns1 @ ignore_file_patterns E gitignoreContent))"

text \<open>The \<open>for\<close> loop of \<open>shouldIgnore\<close>, returning at the first match.\<close>

fun shouldIgnore_loop :: "env \<Rightarrow> string \<Rightarrow> string \<Rightarrow> string list \<Rightarrow> bool" where
  "shouldIgnore_loop E relativePath base [] = False"
| "shouldIgnore_loop E relativePath base (pattern # rest) =
     (if minimatch E relativePath pattern True then True
      else if minimatch E base pattern False then True
      else shouldIgnore_loop E relativePath base rest)"

definition to_forward_slashes :: "string \<Rightarrow> string" where
  "to_forward_slashes p = map (\<lambda>c. if c = CHR 0x5C then CHR ''/'' else c) p"

definition shouldIgnore :: "env \<Rightarrow> string \<Rightarrow> string list \<Rightarrow> string \<Rightarrow> bool" where
  "shouldIgnore E filePath ignorePatterns basePath =
     (let relativePath = to_forward_slashes (path_relative E basePath filePath)
      in shouldIgnore_loop E relativePath (path_basename E filePath) ignorePatterns)"

section \<open>Tree walk (getTreeRecursive)\<close>

record tree_entry =
  te_path :: string
  te_name :: string
  te_isDirectory :: bool
  te_size :: nat
  te_modified :: "(int + string) option"

text \<open>\<open>file.modifyTime || file.date\<close>: a number that is \<open>0\<close> is falsy.\<close>

definition entry_modified :: "rfile \<Rightarrow> (int + string) option" where
  "entry_modified file =
     (case rf_modifyTime file of
        Some t \<Rightarrow> if t \<noteq> 0 then Some (Inl t) else map_option Inr (rf_date file)
      | None \<Rightarrow> map_option Inr (rf_date file))"

definition entry_isDir :: "bool \<Rightarrow> rfile \<Rightarrow> bool" where
  "entry_isDir useSFTP file = (if useSFTP then rf_type file = ''d'' else rf_isDirectory file)"

definition entry_fullPath :: "string \<Rightarrow> rfile \<Rightarrow> string" where
  "entry_fullPath remotePath file =
     (if remotePath = ''.'' then rf_name file else remotePath @ ''/'' @ rf_name file)"

definition mk_entry :: "bool \<Rightarrow> string \<Rightarrow> rfile \<Rightarrow> tree_entry" where
  "mk_entry useSFTP remotePath file =
     \<lparr>te_path = entry_fullPath remotePath file, te_name = rf_name file,
      te_isDirectory = entry_isDir useSFTP file, te_size = rf_size file,
      te_modified = entry_modified file\<rparr>"

text \<open>
  \<open>getTreeRecursive\<close> and its \<open>for\<close> loop over the listing (\<open>getTreeLoop\<close>, with the
  \<open>results\<close> array so far). An error of \<open>client.list\<close> is not caught: it ends the walk.
\<close>

function getTreeRecursive :: "'s client \<Rightarrow> bool \<Rightarrow> string \<Rightarrow> int \<Rightarrow> int \<Rightarrow> 's \<Rightarrow> (string + tree_entry list) \<times> 's"
and getTreeLoop :: "'s client \<Rightarrow> bool \<Rightarrow> string \<Rightarrow> int \<Rightarrow> int \<Rightarrow> rfile list \<Rightarrow> tree_entry list \<Rightarrow> 's
      \<Rightarrow> (string + tree_entry list) \<times> 's"
where
  "getTreeRecursive cl useSFTP remotePath depth maxDepth s =
     (if depth > maxDepth then (Inr [], s)
      else (case cl_list cl remotePath s of
              (Inl msg, s1) \<Rightarrow> (Inl msg, s1)
            | (Inr files, s1) \<Rightarrow> getTreeLoop cl useSFTP remotePath depth maxDepth files [] s1))"
| "getTreeLoop cl useSFTP remotePath depth maxDepth [] results s = (Inr results, s)"
| "getTreeLoop cl useSFTP remotePath depth maxDepth (file # rest) results s =
     (if entry_isDir useSFTP file \<and> rf_name file \<noteq> ''.'' \<and> rf_name file \<noteq> ''..'' then
        (case getTreeRecursive cl useSFTP (entry_fullPath remotePath file) (depth + 1) maxDepth s of
           (Inl msg, s1) \<Rightarrow> (Inl msg, s1)
         | (Inr children, s1) \<Rightarrow>
             getTreeLoop cl useSFTP remotePath depth maxDepth rest
               (results @ [mk_entry useSFTP remotePath file] @ children) s1)
      else getTreeLoop cl useSFTP remotePath depth maxDepth rest
             (results @ [mk_entry useSFTP remotePath file]) s)"
  by pat_completeness auto
termination
  by (relation "inv_image (less_than <*lex*> less_than)
        (\<lambda>x. case x of
           Inl (cl, useSFTP, remotePath, depth, maxDepth, s) \<Rightarrow> (2 * nat (maxDepth + 1 - depth), 0)
         | Inr (cl, useSFTP, remotePath, depth, maxDepth, files, r) \<Rightarrow>
             (2 * nat (maxDepth - depth) + 1, length files))")
    auto

section \<open>Synchronisation (syncFiles)\<close>

record stats =
  uploaded :: nat
  downloaded :: nat
  skipped :: nat
  errors :: "string list"
  ignored :: nat

definition stats0 :: stats where
  "stats0 = \<lparr>uploaded = 0, downloaded = 0, skipped = 0, errors = [], ignored = 0\<rparr>"

text \<open>
  \<open>remoteStat.modifyTime || remoteStat.modifiedAt || new Date(remoteStat.rawModifiedAt)\<close>:
  the time the local \<open>mtime\<close> is compared with; \<open>None\<close> is an Invalid Date, against which
  every comparison is false.
\<close>

definition remoteTime :: "rfile \<Rightarrow> int option" where
  "remoteTime remoteStat =
     (case rf_modifyTime remoteStat of
        Some t \<Rightarrow>
          if t \<noteq> 0 then Some t
          else (case rf_modifiedAt remoteStat of
                  Some d \<Rightarrow> Some d
                | None \<Rightarrow> rf_rawModifiedAt remoteStat)
      | None \<Rightarrow>
          (case rf_modifiedAt remoteStat of
             Some d \<Rightarrow> Some d
           | None \<Rightarrow> rf_rawModifiedAt remoteStat))"

text \<open>
  The expression of the inner \<open>try\<close>: \<open>client.stat(remoteFilePath)\<close> on SFTP,
  \<open>(await client.list(remotePath)).find(f => f.name === file.name)\<close> on FTP. \<open>Inr None\<close> is
  \<open>undefined\<close> (no entry of that name), \<open>Inl\<close> an error thrown by the client.
\<close>

definition remoteLookup :: "'s client \<Rightarrow> bool \<Rightarrow> string \<Rightarrow> string \<Rightarrow> string \<Rightarrow> 's
      \<Rightarrow> (string + rfile option) \<times> 's" where
  "remoteLookup cl useSFTP remotePath remoteFilePath fileName s =
     (if useSFTP then
        (case cl_stat cl remoteFilePath s of
           (Inl e, s1) \<Rightarrow> (Inl e, s1)
         | (Inr r, s1) \<Rightarrow> (Inr (Some r), s1))
      else
        (case cl_list cl remotePath s of
           (Inl e, s1) \<Rightarrow> (Inl e, s1)
         | (Inr fs, s1) \<Rightarrow> (Inr (find (\<lambda>f. rf_name f = fileName) fs), s1)))"

text \<open>\<open>client.put(localFilePath, remoteFilePath)\<close> or \<open>client.uploadFrom(..)\<close>.\<close>

definition transfer :: "'s client \<Rightarrow> bool \<Rightarrow> string \<Rightarrow> string \<Rightarrow> 's \<Rightarrow> (string + unit) \<times> 's" where
  "transfer cl useSFTP localFilePath remoteFilePath s =
     (if useSFTP then cl_put cl (FromPath localFilePath) remoteFilePath s
      else cl_uploadFrom cl localFilePath remoteFilePath s)"

text \<open>\<open>client.mkdir(remoteFilePath, true)\<close> or \<open>client.ensureDir(remoteFilePath)\<close>.\<close>

definition makeRemoteDir :: "'s client \<Rightarrow> bool \<Rightarrow> string \<Rightarrow> 's \<Rightarrow> (string + unit) \<times> 's" where
  "makeRemoteDir cl useSFTP remoteFilePath s =
     (if useSFTP then cl_mkdir cl remoteFilePath True s else cl_ensureDir cl remoteFilePath s)"

text \<open>
  The decision of the inner \<open>try\<close>: \<open>shouldUpload\<close> turns false only when an entry was
  found and \<open>localStat.mtime <= remoteTime\<close>; a thrown error leaves it true.
\<close>

definition skipUpload :: "int \<Rightarrow> string + rfile option \<Rightarrow> bool" where
  "skipUpload mtime found =
     (case found of
        Inl e \<Rightarrow> False
      | Inr None \<Rightarrow> False
      | Inr (Some remoteStat) \<Rightarrow>
          (case remoteTime remoteStat of
             None \<Rightarrow> False
           | Some rt \<Rightarrow> mtime \<le> rt))"

text \<open>
  \<open>syncFiles\<close>, the \<open>for\<close> loop over \<open>localFiles\<close> with the \<open>stats\<close> object so far
  (\<open>syncLoop\<close>), and the body of the \<open>try\<close> for one entry (\<open>syncEntry\<close>), whose \<open>Inl\<close> is
  the error the \<open>catch\<close> of the loop receives. \<open>localDir\<close> is the result of
  \<open>fs.readdir(localPath)\<close>. \<open>ignorePatterns0 = None\<close> is the \<open>null\<close> of a top-level call;
  \<open>basePath0\<close> is read only when patterns are passed, as every call site does.
\<close>

function syncFiles :: "env \<Rightarrow> 's client \<Rightarrow> bool \<Rightarrow> string + lnode list \<Rightarrow> string \<Rightarrow> string \<Rightarrow> string
      \<Rightarrow> string list option \<Rightarrow> string \<Rightarrow> string list \<Rightarrow> 's \<Rightarrow> (string + stats) \<times> 's"
and syncLoop :: "env \<Rightarrow> 's client \<Rightarrow> bool \<Rightarrow> string \<Rightarrow> string \<Rightarrow> string
      \<Rightarrow> string list \<Rightarrow> string \<Rightarrow> string list \<Rightarrow> lnode list \<Rightarrow> stats \<Rightarrow> 's \<Rightarrow> stats \<times> 's"
and syncEntry :: "env \<Rightarrow> 's client \<Rightarrow> bool \<Rightarrow> string \<Rightarrow> string \<Rightarrow> string
      \<Rightarrow> string list \<Rightarrow> string \<Rightarrow> string list \<Rightarrow> lnode \<Rightarrow> string \<Rightarrow> string \<Rightarrow> stats \<Rightarrow> 's
      \<Rightarrow> (string + unit) \<times> stats \<times> 's"
where
  "syncFiles E cl useSFTP localDir localPath remotePath direction ignorePatterns0 basePath0 extraExclude s =
     (let ignorePatterns1 = (case ignorePatterns0 of
                               None \<Rightarrow> loadIgnorePatterns E localPath
                             | Some ps \<Rightarrow> ps);
          basePath = (case ignorePatterns0 of None \<Rightarrow> localPath | Some ps \<Rightarrow> basePath0);
          ignorePatterns = (if length extraExclude > 0 then ignorePatterns1 @ extraExclude
                            else ignorePatterns1)
      in if direction = ''upload'' \<or> direction = ''both'' then
           (case localDir of
              Inl msg \<Rightarrow> (Inl msg, s)
            | Inr localFiles \<Rightarrow>
                (case syncLoop E cl useSFTP localPath remotePath direction ignorePatterns basePath
                        extraExclude localFiles stats0 s of
                   (st, s') \<Rightarrow> (Inr st, s')))
         else (Inr stats0, s))"
| "syncLoop E cl useSFTP localPath remotePath direction ignorePatterns basePath extraExclude [] st s =
     (st, s)"
| "syncLoop E cl useSFTP localPath remotePath direction ignorePatterns basePath extraExclude
      (file # rest) st s =
     (let localFilePath = path_join E localPath (l_name file);
          remoteFilePath = remotePath @ ''/'' @ l_name file
      in if shouldIgnore E localFilePath ignorePatterns basePath then
           syncLoop E cl useSFTP localPath remotePath direction ignorePatterns basePath extraExclude
             rest (st\<lparr>ignored := ignored st + 1\<rparr>) s
         else
           (case syncEntry E cl useSFTP localPath remotePath direction ignorePatterns basePath
                   extraExclude file localFilePath remoteFilePath st s of
              (Inr u, st', s') \<Rightarrow>
                syncLoop E cl useSFTP localPath remotePath direction ignorePatterns basePath
                  extraExclude rest st' s'
            | (Inl msg, st', s') \<Rightarrow>
                syncLoop E cl useSFTP localPath remotePath direction ignorePatterns basePath
                  extraExclude rest (st'\<lparr>errors := errors st' @ [localFilePath @ '': '' @ msg]\<rparr>) s'))"
| "syncEntry E cl useSFTP localPath remotePath direction ignorePatterns basePath extraExclude
      (LDir nm subDir) localFilePath remoteFilePath st s =
     (case makeRemoteDir cl useSFTP remoteFilePath s of
        (Inl msg, s1) \<Rightarrow> (Inl msg, st, s1)
      | (Inr u, s1) \<Rightarrow>
          (case syncFiles E cl useSFTP subDir localFilePath remoteFilePath direction
                  (Some ignorePatterns) basePath extraExclude s1 of
             (Inl msg, s2) \<Rightarrow> (Inl msg, st, s2)
           | (Inr subStats, s2) \<Rightarrow>
               (Inr (), st\<lparr>uploaded := uploaded st + uploaded subStats,
                           downloaded := downloaded st + downloaded subStats,
                           skipped := skipped st + skipped subStats,
                           ignored := ignored st + ignored subStats,
                           errors := errors st @ errors subStats\<rparr>, s2)))"
| "syncEntry E cl useSFTP localPath remotePath direction ignorePatterns basePath extraExclude
      (LFile nm localStat) localFilePath remoteFilePath st s =
     (case localStat of
        Inl msg \<Rightarrow> (Inl msg, st, s)
      | Inr mtime \<Rightarrow>
          (case remoteLookup cl useSFTP remotePath remoteFilePath nm s of
             (found, s1) \<Rightarrow>
               if skipUpload mtime found then (Inr (), st\<lparr>skipped := skipped st + 1\<rparr>, s1)
               else
                 (case transfer cl useSFTP localFilePath remoteFilePath s1 of
                    (Inl msg, s2) \<Rightarrow> (Inl msg, st, s2)
                  | (Inr u, s2) \<Rightarrow> (Inr (), st\<lparr>uploaded := uploaded st + 1\<rparr>, s2))))"
  by pat_completeness auto
termination
  by (relation "measure (\<lambda>x. case x of
            Inl (E, cl, useSFTP, localDir, r) \<Rightarrow>
              2 * (case localDir of Inl e \<Rightarrow> 0 | Inr xs \<Rightarrow> size_list size xs) + 1
          | Inr (Inl (E, cl, useSFTP, localPath, remotePath, direction, ignorePatterns, basePath,
                      extraExclude, files, r)) \<Rightarrow> 2 * size_list size files
          | Inr (Inr (E, cl, useSFTP, localPath, remotePath, direction, ignorePatterns, basePath,
                      extraExclude, file, r)) \<Rightarrow> 2 * size file + 1)")
    (simp_all split: sum.splits)

section \<open>Tool handlers (ftp_exists, ftp_copy)\<close>

text \<open>
  What a handler returns: the text of its single content item and the \<open>isError\<close> flag
  (absent is false). An error that reaches the handler's outer \<open>catch\<close> becomes
  \<open>Error: <message>\<close> with \<open>isError: true\<close>.
\<close>

record response =
  r_text :: string
  r_isError :: bool

definition error_response :: "string \<Rightarrow> response" where
  "error_response msg = \<lparr>r_text = ''Error: '' @ msg, r_isError = True\<rparr>"

text \<open>\<open>s.lastIndexOf(c)\<close>: the index of the last occurrence, \<open>-1\<close> when there is none.\<close>

fun lastIndexOf_scan :: "char \<Rightarrow> string \<Rightarrow> int \<Rightarrow> int \<Rightarrow> int" where
  "lastIndexOf_scan c [] i found = found"
| "lastIndexOf_scan c (x # xs) i found =
     lastIndexOf_scan c xs (i + 1) (if x = c then i else found)"

definition lastIndexOf :: "string \<Rightarrow> char \<Rightarrow> int" where
  "lastIndexOf s c = lastIndexOf_scan c s 0 (- 1)"

text \<open>
  \<open>s.substring(a, b)\<close> clamps both indices to \<open>0..length\<close> and swaps them when \<open>a > b\<close>;
  \<open>s.substring(a)\<close> runs to the end.
\<close>

definition substring :: "string \<Rightarrow> int \<Rightarrow> int \<Rightarrow> string" where
  "substring s a b =
     (let n = int (length s);
          a' = max 0 (min a n);
          b' = max 0 (min b n)
      in take (nat (max a' b' - min a' b')) (drop (nat (min a' b')) s))"

definition substring_from :: "string \<Rightarrow> int \<Rightarrow> string" where
  "substring_from s a = drop (nat (max 0 a)) s"

text \<open>
  The \<open>ftp_exists\<close> case. On FTP the parent directory
  (\<open>path.substring(0, path.lastIndexOf('/')) || '.'\<close>) is listed and searched for the
  file name (\<open>path.substring(path.lastIndexOf('/') + 1)\<close>). The lookup runs inside a
  \<open>try\<close> whose \<open>catch\<close> sets \<open>exists = false\<close>.
\<close>

definition exists_dirPath :: "string \<Rightarrow> string" where
  "exists_dirPath path =
     (let dirPath = substring path 0 (lastIndexOf path CHR ''/'')
      in if dirPath = [] then ''.'' else dirPath)"

definition exists_fileName :: "string \<Rightarrow> string" where
  "exists_fileName path = substring_from path (lastIndexOf path CHR ''/'' + 1)"

definition exists_lookup :: "'s client \<Rightarrow> bool \<Rightarrow> string \<Rightarrow> 's \<Rightarrow> (string + bool) \<times> 's" where
  "exists_lookup cl useSFTP path s =
     (if useSFTP then
        (case cl_stat cl path s of
           (Inl e, s1) \<Rightarrow> (Inl e, s1)
         | (Inr r, s1) \<Rightarrow> (Inr True, s1))
      else
        (case cl_list cl (exists_dirPath path) s of
           (Inl e, s1) \<Rightarrow> (Inl e, s1)
         | (Inr files, s1) \<Rightarrow>
             (Inr (list_ex (\<lambda>f. rf_name f = exists_fileName path) files), s1)))"

definition ftp_exists :: "'s client \<Rightarrow> bool \<Rightarrow> string \<Rightarrow> 's \<Rightarrow> response \<times> 's" where
  "ftp_exists cl useSFTP path s =
     (case exists_lookup cl useSFTP path s of
        (Inl e, s1) \<Rightarrow> (\<lparr>r_text = ''false'', r_isError = False\<rparr>, s1)
      | (Inr exists, s1) \<Rightarrow>
          (\<lparr>r_text = (if exists then ''true'' else ''false''), r_isError = False\<rparr>, s1))"

text \<open>The \<open>ftp_copy\<close> case, with the handler's outer \<open>catch\<close> around \<open>get\<close> and \<open>put\<close>.\<close>

definition ftp_copy :: "'s client \<Rightarrow> bool \<Rightarrow> string \<Rightarrow> string \<Rightarrow> 's \<Rightarrow> response \<times> 's" where
  "ftp_copy cl useSFTP sourcePath destPath s =
     (if \<not> useSFTP then
        (\<lparr>r_text = ''Error: ftp_copy is only supported for SFTP connections. For FTP, download and re-upload.'',
          r_isError = False\<rparr>, s)
      else
        (case cl_get cl sourcePath s of
           (Inl msg, s1) \<Rightarrow> (error_response msg, s1)
         | (Inr buffer, s1) \<Rightarrow>
             (case cl_put cl (FromBuffer buffer) destPath s1 of
                (Inl msg, s2) \<Rightarrow> (error_response msg, s2)
              | (Inr u, s2) \<Rightarrow>
                  (\<lparr>r_text = ''Successfully copied '' @ sourcePath @ '' to '' @ destPath,
                    r_isError = False\<rparr>, s2))))"

section \<open>Specification-side notions\<close>

text \<open>
  Depth in the remote tree, in the words of the specification: the immediate children of
  the start path are at depth 0, and the entries at depth \<open>k + 1\<close> are those at depth \<open>k\<close>
  below a child directory other than \<open>.\<close> and \<open>..\<close>. \<open>ls\<close> is the listing of each
  directory.
\<close>

definition entriesOf :: "(string \<Rightarrow> rfile list) \<Rightarrow> bool \<Rightarrow> string \<Rightarrow> tree_entry list" where
  "entriesOf ls useSFTP p = map (mk_entry useSFTP p) (ls p)"

definition descends :: "tree_entry \<Rightarrow> bool" where
  "descends e = (te_isDirectory e \<and> te_name e \<noteq> ''.'' \<and> te_name e \<noteq> ''..'')"

fun at_depth :: "(string \<Rightarrow> rfile list) \<Rightarrow> bool \<Rightarrow> nat \<Rightarrow> string \<Rightarrow> tree_entry list" where
  "at_depth ls useSFTP 0 p = entriesOf ls useSFTP p"
| "at_depth ls useSFTP (Suc k) p =
     concat (map (\<lambda>e. if descends e then at_depth ls useSFTP k (te_path e) else [])
                 (entriesOf ls useSFTP p))"

text \<open>
  The listing of a directory as the walk sees it, given the result of \<open>client.list\<close> for
  each path (nothing, where the directory cannot be listed), and the directories that a
  walk of \<open>n\<close> levels starting at \<open>p\<close> has to list: all of them can be listed.
\<close>

definition listed :: "(string \<Rightarrow> string + rfile list) \<Rightarrow> string \<Rightarrow> rfile list" where
  "listed lsr p = (case lsr p of Inl e \<Rightarrow> [] | Inr fs \<Rightarrow> fs)"

fun listable :: "(string \<Rightarrow> string + rfile list) \<Rightarrow> bool \<Rightarrow> nat \<Rightarrow> string \<Rightarrow> bool" where
  "listable lsr useSFTP 0 p = True"
| "listable lsr useSFTP (Suc n) p =
     (case lsr p of
        Inl e \<Rightarrow> False
      | Inr fs \<Rightarrow>
          list_all (\<lambda>f. \<not> descends (mk_entry useSFTP p f)
                        \<or> listable lsr useSFTP n (entry_fullPath p f)) fs)"

text \<open>
  The number of local entries a run of \<open>syncFiles\<close> visits: one for each iteration of the
  \<open>for\<close> loop, in the call itself and in every recursive call it makes. The three functions
  follow \<open>syncFiles\<close>, \<open>syncLoop\<close> and \<open>syncEntry\<close> step by step.
\<close>

function visitedFiles :: "env \<Rightarrow> 's client \<Rightarrow> bool \<Rightarrow> string + lnode list \<Rightarrow> string \<Rightarrow> string \<Rightarrow> string
      \<Rightarrow> string list option \<Rightarrow> string \<Rightarrow> string list \<Rightarrow> 's \<Rightarrow> nat"
and visitedLoop :: "env \<Rightarrow> 's client \<Rightarrow> bool \<Rightarrow> string \<Rightarrow> string \<Rightarrow> string
      \<Rightarrow> string list \<Rightarrow> string \<Rightarrow> string list \<Rightarrow> lnode list \<Rightarrow> stats \<Rightarrow> 's \<Rightarrow> nat"
and visitedEntry :: "env \<Rightarrow> 's client \<Rightarrow> bool \<Rightarrow> string \<Rightarrow> string \<Rightarrow> string
      \<Rightarrow> string list \<Rightarrow> string \<Rightarrow> string list \<Rightarrow> lnode \<Rightarrow> string \<Rightarrow> string \<Rightarrow> 's \<Rightarrow> nat"
where
  "visitedFiles E cl useSFTP localDir localPath remotePath direction ignorePatterns0 basePath0 extraExclude s =
     (let ignorePatterns1 = (case ignorePatterns0 of
                               None \<Rightarrow> loadIgnorePatterns E localPath
                             | Some ps \<Rightarrow> ps);
          basePath = (case ignorePatterns0 of None \<Rightarrow> localPath | Some ps \<Rightarrow> basePath0);
          ignorePatterns = (if length extraExclude > 0 then ignorePatterns1 @ extraExclude
                            else ignorePatterns1)
      in if direction = ''upload'' \<or> direction = ''both'' then
           (case localDir of
              Inl msg \<Rightarrow> 0
            | Inr localFiles \<Rightarrow>
                visitedLoop E cl useSFTP localPath remotePath direction ignorePatterns basePath
                  extraExclude localFiles stats0 s)
         else 0)"
| "visitedLoop E cl useSFTP localPath remotePath direction ignorePatterns basePath extraExclude [] st s = 0"
| "visitedLoop E cl useSFTP localPath remotePath direction ignorePatterns basePath extraExclude
      (file # rest) st s =
     (let localFilePath = path_join E localPath (l_name file);
          remoteFilePath = remotePath @ ''/'' @ l_name file
      in if shouldIgnore E localFilePath ignorePatterns basePath then
           1 + visitedLoop E cl useSFTP localPath remotePath direction ignorePatterns basePath
                 extraExclude rest (st\<lparr>ignored := ignored st + 1\<rparr>) s
         else
           1 + visitedEntry E cl useSFTP localPath remotePath direction ignorePatterns basePath
                 extraExclude file localFilePath remoteFilePath s
             + (case syncEntry E cl useSFTP localPath remotePath direction ignorePatterns basePath
                       extraExclude file localFilePath remoteFilePath st s of
                  (Inr u, st', s') \<Rightarrow>
                    visitedLoop E cl useSFTP localPath remotePath direction ignorePatterns basePath
                      extraExclude rest st' s'
                | (Inl msg, st', s') \<Rightarrow>
                    visitedLoop E cl useSFTP localPath remotePath direction ignorePatterns basePath
                      extraExclude rest (st'\<lparr>errors := errors st' @ [localFilePath @ '': '' @ msg]\<rparr>) s'))"
| "visitedEntry E cl useSFTP localPath remotePath direction ignorePatterns basePath extraExclude
      (LDir nm subDir) localFilePath remoteFilePath s =
     (case makeRemoteDir cl useSFTP remoteFilePath s of
        (Inl msg, s1) \<Rightarrow> 0
      | (Inr u, s1) \<Rightarrow>
          visitedFiles E cl useSFTP subDir localFilePath remoteFilePath direction
            (Some ignorePatterns) basePath extraExclude s1)"
| "visitedEntry E cl useSFTP localPath remotePath direction ignorePatterns basePath extraExclude
      (LFile nm localStat) localFilePath remoteFilePath s = 0"
  by pat_completeness auto
termination
  by (relation "measure (\<lambda>x. case x of
            Inl (E, cl, useSFTP, localDir, r) \<Rightarrow>
              2 * (case localDir of Inl e \<Rightarrow> 0 | Inr xs \<Rightarrow> size_list size xs) + 1
          | Inr (Inl (E, cl, useSFTP, localPath, remotePath, direction, ignorePatterns, basePath,
                      extraExclude, files, r)) \<Rightarrow> 2 * size_list size files
          | Inr (Inr (E, cl, useSFTP, localPath, remotePath, direction, ignorePatterns, basePath,
                      extraExclude, file, r)) \<Rightarrow> 2 * size file + 1)")
    (simp_all split: sum.splits)

text \<open>
  The rule set and the root a call of \<open>syncFiles\<close> works with, after its first two
  \<open>if\<close> statements.
\<close>

definition effectivePatterns :: "env \<Rightarrow> string \<Rightarrow> string list option \<Rightarrow> string list \<Rightarrow> string list" where
  "effectivePatterns E localPath ignorePatterns0 extraExclude =
     (let ignorePatterns1 = (case ignorePatterns0 of
                               None \<Rightarrow> loadIgnorePatterns E localPath
                             | Some ps \<Rightarrow> ps)
      in if length extraExclude > 0 then ignorePatterns1 @ extraExclude else ignorePatterns1)"

definition effectiveBase :: "string \<Rightarrow> string list option \<Rightarrow> string \<Rightarrow> string" where
  "effectiveBase localPath ignorePatterns0 basePath0 =
     (case ignorePatterns0 of None \<Rightarrow> localPath | Some ps \<Rightarrow> basePath0)"

text \<open>The number of entries of a local tree, at every level.\<close>

fun entryCount :: "lnode \<Rightarrow> nat" where
  "entryCount (LFile n localStat) = 1"
| "entryCount (LDir n (Inl e)) = 1"
| "entryCount (LDir n (Inr xs)) = 1 + sum_list (map entryCount xs)"

definition dirCount :: "string + lnode list \<Rightarrow> nat" where
  "dirCount localDir = (case localDir of Inl e \<Rightarrow> 0 | Inr xs \<Rightarrow> sum_list (map entryCount xs))"

text \<open>The counters of the report that classify a local entry.\<close>

definition counted :: "stats \<Rightarrow> nat" where
  "counted st = uploaded st + skipped st + ignored st"

text \<open>
  The walk as a function of the listing alone: \<open>n\<close> levels of directories are listed,
  starting with \<open>p\<close>.
\<close>

fun walk :: "(string \<Rightarrow> rfile list) \<Rightarrow> bool \<Rightarrow> nat \<Rightarrow> string \<Rightarrow> tree_entry list" where
  "walk ls useSFTP 0 p = []"
| "walk ls useSFTP (Suc n) p =
     concat (map (\<lambda>e. e # (if descends e then walk ls useSFTP n (te_path e) else []))
                 (entriesOf ls useSFTP p))"

section \<open>A concrete environment and concrete clients\<close>

text \<open>
  For evaluating the model on concrete inputs: POSIX-style paths below the root, patterns
  that match literally (the whole path, or its last component with \<open>matchBase\<close>), and no
  ignore files (so that nothing is ever trimmed).
\<close>

definition last_component :: "string \<Rightarrow> string" where
  "last_component p = substring_from p (lastIndexOf p CHR ''/'' + 1)"

definition literal_env :: env where
  "literal_env =
     \<lparr>path_join = (\<lambda>a b. a @ ''/'' @ b),
      path_relative = (\<lambda>base p. if prefix (base @ ''/'') p then drop (length base + 1) p else p),
      path_basename = last_component,
      minimatch = (\<lambda>p pat matchBase. p = pat \<or> (matchBase \<and> last_component p = pat)),
      fs_readFile = (\<lambda>p. Inl ''ENOENT: no such file or directory''),
      string_trim = (\<lambda>l. l)\<rparr>"

text \<open>
  A remote server in memory. Its directories, file contents and the paths it refuses to
  read or to write are fixed; the connection state is the log of the calls made.
\<close>

datatype rop =
  OpList string | OpStat string | OpMkdir string | OpEnsureDir string
  | OpPut put_source string | OpUploadFrom string string | OpGet string

record server =
  sv_dirs :: "(string \<times> rfile list) list"
  sv_contents :: "(string \<times> string) list"
  sv_noRead :: "string list"
  sv_noWrite :: "string list"

definition sv_stat :: "server \<Rightarrow> string \<Rightarrow> rfile option" where
  "sv_stat sv p =
     (case filter (\<lambda>(d, f). d @ ''/'' @ rf_name f = p)
             (concat (map (\<lambda>(d, fs). map (\<lambda>f. (d, f)) fs) (sv_dirs sv))) of
        [] \<Rightarrow> None
      | (d, f) # _ \<Rightarrow> Some f)"

definition write_result :: "server \<Rightarrow> string \<Rightarrow> string + unit" where
  "write_result sv p = (if p \<in> set (sv_noWrite sv) then Inl ''Permission denied'' else Inr ())"

definition sv_list :: "server \<Rightarrow> string \<Rightarrow> string + rfile list" where
  "sv_list sv p =
     (if p \<in> set (sv_noRead sv) then Inl ''Permission denied''
      else (case map_of (sv_dirs sv) p of
              None \<Rightarrow> Inl ''No such file''
            | Some fs \<Rightarrow> Inr fs))"

definition mem_client :: "server \<Rightarrow> (rop list) client" where
  "mem_client sv =
     \<lparr>cl_list = (\<lambda>p s. (sv_list sv p, s @ [OpList p])),
      cl_stat = (\<lambda>p s.
        (if p \<in> set (sv_noRead sv) then Inl ''Permission denied''
         else (case sv_stat sv p of
                 None \<Rightarrow> Inl ''No such file''
               | Some f \<Rightarrow> Inr f), s @ [OpStat p])),
      cl_mkdir = (\<lambda>p r s. (write_result sv p, s @ [OpMkdir p])),
      cl_ensureDir = (\<lambda>p s. (write_result sv p, s @ [OpEnsureDir p])),
      cl_put = (\<lambda>src p s. (write_result sv p, s @ [OpPut src p])),
      cl_uploadFrom = (\<lambda>l p s. (write_result sv p, s @ [OpUploadFrom l p])),
      cl_get = (\<lambda>p s.
        (if p \<in> set (sv_noRead sv) then Inl ''Permission denied''
         else (case map_of (sv_contents sv) p of
                 None \<Rightarrow> Inl ''No such file''
               | Some c \<Rightarrow> Inr c), s @ [OpGet p]))\<rparr>"

definition plain_file :: "string \<Rightarrow> int \<Rightarrow> rfile" where
  "plain_file n t =
     \<lparr>rf_name = n, rf_type = ''-'', rf_isDirectory = False, rf_size = 1,
      rf_modifyTime = Some t, rf_modifiedAt = Some t, rf_rawModifiedAt = Some t, rf_date = None\<rparr>"

definition plain_dir :: "string \<Rightarrow> rfile" where
  "plain_dir n =
     \<lparr>rf_name = n, rf_type = ''d'', rf_isDirectory = True, rf_size = 0,
      rf_modifyTime = Some 1, rf_modifiedAt = Some 1, rf_rawModifiedAt = Some 1, rf_date = None\<rparr>"

text \<open>
  An entry as \<open>client.stat\<close> of \<open>ssh2-sftp-client\<close> returns it: the time is in
  \<open>modifyTime\<close> alone.
\<close>

definition sftp_file :: "string \<Rightarrow> int \<Rightarrow> rfile" where
  "sftp_file n t =
     \<lparr>rf_name = n, rf_type = ''-'', rf_isDirectory = False, rf_size = 1,
      rf_modifyTime = Some t, rf_modifiedAt = None, rf_rawModifiedAt = None, rf_date = None\<rparr>"

definition demo_server :: server where
  "demo_server =
     \<lparr>sv_dirs = [(''/www'', [plain_file ''b.txt'' 50, plain_file ''c.txt'' 10, plain_file ''old.txt'' 7,
                              sftp_file ''epoch.txt'' 0])],
      sv_contents = [(''/www/b.txt'', ''hello'')],
      sv_noRead = [''/private'', ''/www/locked.txt''],
      sv_noWrite = [''/www/c.txt'', ''/www/ro'']\<rparr>"

text \<open>A server with two levels of directories that can be listed and a third that cannot.\<close>

definition tree_server :: server where
  "tree_server =
     \<lparr>sv_dirs = [(''/www'', [plain_dir ''css'', plain_file ''index.html'' 5]),
                 (''/www/css'', [plain_dir ''deep'', plain_file ''site.css'' 5])],
      sv_contents = [],
      sv_noRead = [''/www/css/deep''],
      sv_noWrite = []\<rparr>"

section \<open>Protocol selection: results\<close>

lemma prefix_sftp_scheme_sublist:
  assumes "prefix ''sftp://'' h"
  shows "sublist ''sftp'' h"
proof -
  from assms obtain r where "h = ''sftp://'' @ r"
    by (auto simp: prefix_def)
  then have "h = [] @ ''sftp'' @ (''://'' @ r)"
    by simp
  then show ?thesis
    unfolding sublist_def by blast
qed

lemma isSFTP_iff_includes:
  "isSFTP host = (\<exists>h. host = Some h \<and> sublist ''sftp'' h)"
proof (cases host)
  case None
  then show ?thesis by (simp add: isSFTP_def)
next
  case (Some h)
  have "sublist ''sftp'' h \<Longrightarrow> h \<noteq> []"
    by auto
  with Some show ?thesis
    by (auto simp: isSFTP_def str_includes_def startsWith_def
             dest: prefix_sftp_scheme_sublist)
qed

text \<open>
  Claim C10. Protocol selection tests whether the host string contains \<open>sftp\<close> anywhere,
  not only as the scheme prefix: a host containing it gets the SFTP adapter and, with no
  port configured, port 22; every other host gets the FTP adapter and port 21. A plain
  host name such as \<open>ftp.mysftpserver.com\<close> is therefore treated as SFTP.
\<close>

theorem protocol_selection_by_substring:
  "selectAdapter host = (if (\<exists>h. host = Some h \<and> sublist ''sftp'' h) then SFTP else FTP)
   \<and> getPort parseInt host None = (if (\<exists>h. host = Some h \<and> sublist ''sftp'' h) then Some 22 else Some 21)
   \<and> selectAdapter (Some ''ftp.mysftpserver.com'') = SFTP
   \<and> getPort parseInt (Some ''ftp.mysftpserver.com'') None = Some 22"
proof -
  have sel: "selectAdapter host = (if (\<exists>h. host = Some h \<and> sublist ''sftp'' h) then SFTP else FTP)"
    by (simp add: selectAdapter_def isSFTP_iff_includes)
  have cond: "(case host of None \<Rightarrow> False
               | Some h \<Rightarrow> h \<noteq> [] \<and> (str_includes h ''sftp'' \<or> startsWith h ''sftp://''))
              = (\<exists>h. host = Some h \<and> sublist ''sftp'' h)"
    using isSFTP_iff_includes [of host] by (simp add: isSFTP_def)
  have port: "getPort parseInt host None
              = (if (\<exists>h. host = Some h \<and> sublist ''sftp'' h) then Some 22 else Some 21)"
    unfolding getPort_def truthy_port_def using cond by simp
  have ex: "sublist ''sftp'' ''ftp.mysftpserver.com''"
  proof -
    have "''ftp.mysftpserver.com'' = ''ftp.my'' @ ''sftp'' @ ''server.com''"
      by simp
    then show ?thesis
      unfolding sublist_def by blast
  qed
  have sel_ex: "selectAdapter (Some ''ftp.mysftpserver.com'') = SFTP"
    using ex by (simp add: selectAdapter_def isSFTP_iff_includes)
  have port_ex: "getPort parseInt (Some ''ftp.mysftpserver.com'') None = Some 22"
    unfolding getPort_def truthy_port_def using ex
    by (simp add: str_includes_def)
  from sel port sel_ex port_ex show ?thesis
    by blast
qed

section \<open>Synchronisation: one step of the loop\<close>


lemma syncEntry_error_keeps_stats:
  assumes "syncEntry E cl useSFTP localPath remotePath direction ignorePatterns basePath extraExclude
             ent localFilePath remoteFilePath st s = (Inl msg, st', s')"
  shows "st' = st"
proof (cases ent)
  case (LFile nm localStat)
  with assms show ?thesis
    by (auto split: sum.splits prod.splits if_splits)
next
  case (LDir nm subDir)
  with assms show ?thesis
    by (auto simp: syncFiles.simps split: sum.splits prod.splits)
qed

lemma syncEntry_file_ok:
  assumes "syncEntry E cl useSFTP localPath remotePath direction ignorePatterns basePath extraExclude
             (LFile nm localStat) localFilePath remoteFilePath st s = (Inr u, st', s')"
  shows "uploaded st' + skipped st' = uploaded st + skipped st + 1 \<and> errors st' = errors st
         \<and> ignored st' = ignored st \<and> downloaded st' = downloaded st"
  using assms by (auto split: sum.splits prod.splits if_splits)

lemma syncEntry_file_transfer_fails:
  assumes "remoteLookup cl useSFTP remotePath remoteFilePath nm s = (found, s1)"
    and "\<not> skipUpload mtime found"
    and "transfer cl useSFTP localFilePath remoteFilePath s1 = (Inl msg, s2)"
  shows "syncEntry E cl useSFTP localPath remotePath direction ignorePatterns basePath extraExclude
             (LFile nm (Inr mtime)) localFilePath remoteFilePath st s = (Inl msg, st, s2)"
  using assms by simp

lemma syncLoop_ignored:
  assumes "shouldIgnore E (path_join E localPath (l_name ent)) pats base"
  shows "syncLoop E cl useSFTP localPath remotePath direction pats base extraExclude (ent # rest) st s =
         syncLoop E cl useSFTP localPath remotePath direction pats base extraExclude rest
           (st\<lparr>ignored := ignored st + 1\<rparr>) s"
  using assms by (simp add: Let_def)

lemma syncLoop_step_error:
  assumes "\<not> shouldIgnore E (path_join E localPath (l_name ent)) pats base"
    and "syncEntry E cl useSFTP localPath remotePath direction pats base extraExclude ent
           (path_join E localPath (l_name ent)) (remotePath @ ''/'' @ l_name ent) st s = (Inl msg, st', s')"
  shows "syncLoop E cl useSFTP localPath remotePath direction pats base extraExclude (ent # rest) st s =
         syncLoop E cl useSFTP localPath remotePath direction pats base extraExclude rest
           (st\<lparr>errors := errors st @ [path_join E localPath (l_name ent) @ '': '' @ msg]\<rparr>) s'"
  using assms syncEntry_error_keeps_stats [OF assms(2)] by (simp add: Let_def)

lemma syncLoop_step_ok:
  assumes "\<not> shouldIgnore E (path_join E localPath (l_name ent)) pats base"
    and "syncEntry E cl useSFTP localPath remotePath direction pats base extraExclude ent
           (path_join E localPath (l_name ent)) (remotePath @ ''/'' @ l_name ent) st s = (Inr u, st', s')"
  shows "syncLoop E cl useSFTP localPath remotePath direction pats base extraExclude (ent # rest) st s =
         syncLoop E cl useSFTP localPath remotePath direction pats base extraExclude rest st' s'"
  using assms by (simp add: Let_def)

lemma syncLoop_file_step:
  assumes "\<not> shouldIgnore E (path_join E localPath nm) ignorePatterns basePath"
    and "remoteLookup cl useSFTP remotePath (remotePath @ ''/'' @ nm) nm s = (found, s1)"
  shows "syncLoop E cl useSFTP localPath remotePath direction ignorePatterns basePath extraExclude
           (LFile nm (Inr mtime) # rest) st s =
         (if skipUpload mtime found then
            syncLoop E cl useSFTP localPath remotePath direction ignorePatterns basePath extraExclude
              rest (st\<lparr>skipped := skipped st + 1\<rparr>) s1
          else
            (case transfer cl useSFTP (path_join E localPath nm) (remotePath @ ''/'' @ nm) s1 of
               (Inr u, s2) \<Rightarrow>
                 syncLoop E cl useSFTP localPath remotePath direction ignorePatterns basePath extraExclude
                   rest (st\<lparr>uploaded := uploaded st + 1\<rparr>) s2
             | (Inl msg, s2) \<Rightarrow>
                 syncLoop E cl useSFTP localPath remotePath direction ignorePatterns basePath extraExclude
                   rest (st\<lparr>errors := errors st @ [path_join E localPath nm @ '': '' @ msg]\<rparr>) s2))"
  using assms by (simp split: sum.splits prod.splits)

lemma syncFiles_upload:
  assumes "direction = ''upload'' \<or> direction = ''both''"
  shows "syncFiles E cl useSFTP (Inr localFiles) localPath remotePath direction ignorePatterns0 basePath0 extraExclude s =
         (case syncLoop E cl useSFTP localPath remotePath direction
                 (effectivePatterns E localPath ignorePatterns0 extraExclude)
                 (effectiveBase localPath ignorePatterns0 basePath0) extraExclude localFiles stats0 s of
            (st, s') \<Rightarrow> (Inr st, s'))"
  using assms by (auto simp: syncFiles.simps effectivePatterns_def effectiveBase_def Let_def)

lemma visitedLoop_ignored:
  assumes "shouldIgnore E (path_join E localPath (l_name ent)) pats base"
  shows "visitedLoop E cl useSFTP localPath remotePath direction pats base extraExclude (ent # rest) st s =
         1 + visitedLoop E cl useSFTP localPath remotePath direction pats base extraExclude rest
           (st\<lparr>ignored := ignored st + 1\<rparr>) s"
  using assms by (simp add: Let_def)

lemma visitedLoop_step_error:
  assumes "\<not> shouldIgnore E (path_join E localPath (l_name ent)) pats base"
    and "syncEntry E cl useSFTP localPath remotePath direction pats base extraExclude ent
           (path_join E localPath (l_name ent)) (remotePath @ ''/'' @ l_name ent) st s = (Inl msg, st', s')"
  shows "visitedLoop E cl useSFTP localPath remotePath direction pats base extraExclude (ent # rest) st s =
         1 + visitedEntry E cl useSFTP localPath remotePath direction pats base extraExclude ent
               (path_join E localPath (l_name ent)) (remotePath @ ''/'' @ l_name ent) s
         + visitedLoop E cl useSFTP localPath remotePath direction pats base extraExclude rest
           (st\<lparr>errors := errors st @ [path_join E localPath (l_name ent) @ '': '' @ msg]\<rparr>) s'"
  using assms syncEntry_error_keeps_stats [OF assms(2)] by (simp add: Let_def)

lemma visitedLoop_step_ok:
  assumes "\<not> shouldIgnore E (path_join E localPath (l_name ent)) pats base"
    and "syncEntry E cl useSFTP localPath remotePath direction pats base extraExclude ent
           (path_join E localPath (l_name ent)) (remotePath @ ''/'' @ l_name ent) st s = (Inr u, st', s')"
  shows "visitedLoop E cl useSFTP localPath remotePath direction pats base extraExclude (ent # rest) st s =
         1 + visitedEntry E cl useSFTP localPath remotePath direction pats base extraExclude ent
               (path_join E localPath (l_name ent)) (remotePath @ ''/'' @ l_name ent) s
         + visitedLoop E cl useSFTP localPath remotePath direction pats base extraExclude rest st' s'"
  using assms by (simp add: Let_def)

declare syncLoop.simps(2) [simp del] visitedLoop.simps(2) [simp del]
declare syncFiles.simps [simp del] visitedFiles.simps [simp del] getTreeRecursive.simps [simp del]

text \<open>Evaluation of the concrete environment and server.\<close>

lemmas demo_simps =
  literal_env_def last_component_def substring_from_def lastIndexOf_def shouldIgnore_def
  to_forward_slashes_def mem_client_def demo_server_def sv_stat_def sv_list_def write_result_def
  sftp_file_def
  plain_file_def plain_dir_def remoteLookup_def transfer_def makeRemoteDir_def skipUpload_def
  remoteTime_def stats0_def

section \<open>Upload decision\<close>

text \<open>
  The decision where the remote modification time can be read (\<open>remoteTime\<close> is not an
  Invalid Date): not found or strictly older is transferred, equal or newer is skipped.
\<close>

lemma upload_decision_known_time:
  assumes "\<not> shouldIgnore E (path_join E localPath nm) ignorePatterns basePath"
    and "remoteLookup cl useSFTP remotePath (remotePath @ ''/'' @ nm) nm s = (Inr found, s1)"
  shows "((found = None \<or> (\<exists>r rt. found = Some r \<and> remoteTime r = Some rt \<and> rt < mtime)) \<longrightarrow>
            syncLoop E cl useSFTP localPath remotePath direction ignorePatterns basePath extraExclude
              (LFile nm (Inr mtime) # rest) st s =
            (case transfer cl useSFTP (path_join E localPath nm) (remotePath @ ''/'' @ nm) s1 of
               (Inr u, s2) \<Rightarrow>
                 syncLoop E cl useSFTP localPath remotePath direction ignorePatterns basePath extraExclude
                   rest (st\<lparr>uploaded := uploaded st + 1\<rparr>) s2
             | (Inl msg, s2) \<Rightarrow>
                 syncLoop E cl useSFTP localPath remotePath direction ignorePatterns basePath extraExclude
                   rest (st\<lparr>errors := errors st @ [path_join E localPath nm @ '': '' @ msg]\<rparr>) s2))
       \<and> ((\<exists>r rt. found = Some r \<and> remoteTime r = Some rt \<and> mtime \<le> rt) \<longrightarrow>
            syncLoop E cl useSFTP localPath remotePath direction ignorePatterns basePath extraExclude
              (LFile nm (Inr mtime) # rest) st s =
            syncLoop E cl useSFTP localPath remotePath direction ignorePatterns basePath extraExclude
              rest (st\<lparr>skipped := skipped st + 1\<rparr>) s1)"
proof -
  note step = syncLoop_file_step [OF assms, of direction extraExclude mtime rest st]
  have up: "found = None \<or> (\<exists>r rt. found = Some r \<and> remoteTime r = Some rt \<and> rt < mtime)
            \<Longrightarrow> \<not> skipUpload mtime (Inr found)"
    by (auto simp: skipUpload_def)
  have sk: "\<exists>r rt. found = Some r \<and> remoteTime r = Some rt \<and> mtime \<le> rt
            \<Longrightarrow> skipUpload mtime (Inr found)"
    by (auto simp: skipUpload_def)
  from step up sk show ?thesis
    by simp
qed

text \<open>
  Claim C3 says that a non-ignored local file is skipped (and \<open>skipped\<close> incremented)
  when a remote entry is found whose modification time is equal to or newer than the
  local one, and transferred otherwise. The code does not do so for a remote entry whose
  \<open>modifyTime\<close> is \<open>0\<close> (a file dated 1 January 1970, as \<open>client.stat\<close> reports it):
  \<open>0\<close> is falsy in \<open>remoteStat.modifyTime || remoteStat.modifiedAt || new Date(..)\<close>, the
  comparison is made with an Invalid Date and is false, and the local file is
  transferred and \<open>uploaded\<close> incremented whatever its modification time, equal and
  older included.
\<close>

theorem zero_remote_time_uploaded:
  assumes "\<not> shouldIgnore E (path_join E localPath nm) ignorePatterns basePath"
    and "remoteLookup cl useSFTP remotePath (remotePath @ ''/'' @ nm) nm s = (Inr (Some r), s1)"
    and "rf_modifyTime r = Some 0"
    and "rf_modifiedAt r = None"
    and "rf_rawModifiedAt r = None"
  shows "syncLoop E cl useSFTP localPath remotePath direction ignorePatterns basePath extraExclude
           (LFile nm (Inr mtime) # rest) st s =
         (case transfer cl useSFTP (path_join E localPath nm) (remotePath @ ''/'' @ nm) s1 of
            (Inr u, s2) \<Rightarrow>
              syncLoop E cl useSFTP localPath remotePath direction ignorePatterns basePath extraExclude
                rest (st\<lparr>uploaded := uploaded st + 1\<rparr>) s2
          | (Inl msg, s2) \<Rightarrow>
              syncLoop E cl useSFTP localPath remotePath direction ignorePatterns basePath extraExclude
                rest (st\<lparr>errors := errors st @ [path_join E localPath nm @ '': '' @ msg]\<rparr>) s2)"
proof -
  from assms(3-5) have "remoteTime r = None"
    by (simp add: remoteTime_def)
  then have "\<not> skipUpload mtime (Inr (Some r))"
    by (simp add: skipUpload_def)
  with syncLoop_file_step [OF assms(1,2), of direction extraExclude mtime rest st]
  show ?thesis
    by simp
qed

theorem zero_remote_time_uploaded_witness:
  "\<not> shouldIgnore literal_env (path_join literal_env ''/site'' ''epoch.txt'') [''.env''] ''/site''
   \<and> remoteLookup (mem_client demo_server) True ''/www'' (''/www'' @ ''/'' @ ''epoch.txt'') ''epoch.txt'' []
       = (Inr (Some (sftp_file ''epoch.txt'' 0)), [OpStat ''/www/epoch.txt''])
   \<and> rf_modifyTime (sftp_file ''epoch.txt'' 0) = Some 0
   \<and> rf_modifiedAt (sftp_file ''epoch.txt'' 0) = None
   \<and> rf_rawModifiedAt (sftp_file ''epoch.txt'' 0) = None
   \<and> syncLoop literal_env (mem_client demo_server) True ''/site'' ''/www'' ''upload'' [''.env''] ''/site'' []
       [LFile ''epoch.txt'' (Inr 0)] stats0 []
       = (stats0\<lparr>uploaded := 1\<rparr>,
          [OpStat ''/www/epoch.txt'', OpPut (FromPath ''/site/epoch.txt'') ''/www/epoch.txt''])
   \<and> syncLoop literal_env (mem_client demo_server) True ''/site'' ''/www'' ''upload'' [''.env''] ''/site'' []
       [LFile ''epoch.txt'' (Inr (- 5))] stats0 []
       = (stats0\<lparr>uploaded := 1\<rparr>,
          [OpStat ''/www/epoch.txt'', OpPut (FromPath ''/site/epoch.txt'') ''/www/epoch.txt''])"
proof -
  have ni: "\<not> shouldIgnore literal_env (path_join literal_env ''/site'' ''epoch.txt'') [''.env''] ''/site''"
    by (simp add: demo_simps)
  have lk: "remoteLookup (mem_client demo_server) True ''/www'' (''/www'' @ ''/'' @ ''epoch.txt'') ''epoch.txt'' []
       = (Inr (Some (sftp_file ''epoch.txt'' 0)), [OpStat ''/www/epoch.txt''])"
    by (simp add: demo_simps)
  have t1: "rf_modifyTime (sftp_file ''epoch.txt'' 0) = Some 0"
    and t2: "rf_modifiedAt (sftp_file ''epoch.txt'' 0) = None"
    and t3: "rf_rawModifiedAt (sftp_file ''epoch.txt'' 0) = None"
    by (simp_all add: sftp_file_def)
  have equal: "syncLoop literal_env (mem_client demo_server) True ''/site'' ''/www'' ''upload'' [''.env''] ''/site'' []
       [LFile ''epoch.txt'' (Inr 0)] stats0 []
       = (stats0\<lparr>uploaded := 1\<rparr>,
          [OpStat ''/www/epoch.txt'', OpPut (FromPath ''/site/epoch.txt'') ''/www/epoch.txt''])"
    using zero_remote_time_uploaded [OF ni lk t1 t2 t3, of "''upload''" "[]" 0 "[]" stats0]
    by (simp add: demo_simps)
  have older: "syncLoop literal_env (mem_client demo_server) True ''/site'' ''/www'' ''upload'' [''.env''] ''/site'' []
       [LFile ''epoch.txt'' (Inr (- 5))] stats0 []
       = (stats0\<lparr>uploaded := 1\<rparr>,
          [OpStat ''/www/epoch.txt'', OpPut (FromPath ''/site/epoch.txt'') ''/www/epoch.txt''])"
    using zero_remote_time_uploaded [OF ni lk t1 t2 t3, of "''upload''" "[]" "- 5" "[]" stats0]
    by (simp add: demo_simps)
  from ni lk t1 t2 t3 equal older show ?thesis
    by (simp only: simp_thms)
qed



section \<open>Ignored entries\<close>





section \<open>Errors of one entry\<close>

lemma three_files_second_fails:
  assumes ni1: "\<not> shouldIgnore E (path_join E lp na) P B"
    and ni2: "\<not> shouldIgnore E (path_join E lp nb) P B"
    and ni3: "\<not> shouldIgnore E (path_join E lp nc) P B"
    and e1: "syncEntry E cl u lp rp direction P B ex (LFile na (Inr ma))
           (path_join E lp na) (rp @ ''/'' @ na) st0 s = (Inr (), sta, sa)"
    and lk: "remoteLookup cl u rp (rp @ ''/'' @ nb) nb sa = (foundb, sl)"
    and ns: "\<not> skipUpload mb foundb"
    and tf: "transfer cl u (path_join E lp nb) (rp @ ''/'' @ nb) sl = (Inl msgb, sb)"
    and e3: "syncEntry E cl u lp rp direction P B ex (LFile nc (Inr mc))
           (path_join E lp nc) (rp @ ''/'' @ nc)
           (sta\<lparr>errors := errors sta @ [path_join E lp nb @ '': '' @ msgb]\<rparr>) sb = (Inr (), stc, sc)"
  shows "syncLoop E cl u lp rp direction P B ex
           [LFile na (Inr ma), LFile nb (Inr mb), LFile nc (Inr mc)] st0 s = (stc, sc)
         \<and> uploaded stc + skipped stc = uploaded st0 + skipped st0 + 2
         \<and> errors stc = errors st0 @ [path_join E lp nb @ '': '' @ msgb]"
proof -
  let ?f1 = "LFile na (Inr ma)" and ?f2 = "LFile nb (Inr mb)" and ?f3 = "LFile nc (Inr mc)"
  have e2: "syncEntry E cl u lp rp direction P B ex ?f2
           (path_join E lp nb) (rp @ ''/'' @ nb) sta sa = (Inl msgb, sta, sb)"
    by (rule syncEntry_file_transfer_fails [OF lk ns tf])
  have l1: "syncLoop E cl u lp rp direction P B ex (?f1 # [?f2, ?f3]) st0 s
            = syncLoop E cl u lp rp direction P B ex [?f2, ?f3] sta sa"
    by (rule syncLoop_step_ok [where u = "()"]) (simp_all only: l_name.simps ni1 e1 not_False_eq_True)
  have l2: "syncLoop E cl u lp rp direction P B ex (?f2 # [?f3]) sta sa
            = syncLoop E cl u lp rp direction P B ex [?f3]
                (sta\<lparr>errors := errors sta @ [path_join E lp (l_name ?f2) @ '': '' @ msgb]\<rparr>) sb"
    by (rule syncLoop_step_error [where st' = sta]) (simp_all only: l_name.simps ni2 e2 not_False_eq_True)
  have l3: "syncLoop E cl u lp rp direction P B ex (?f3 # [])
                (sta\<lparr>errors := errors sta @ [path_join E lp nb @ '': '' @ msgb]\<rparr>) sb
            = syncLoop E cl u lp rp direction P B ex [] stc sc"
    by (rule syncLoop_step_ok [where u = "()"]) (simp_all only: l_name.simps ni3 e3 not_False_eq_True)
  have l4: "syncLoop E cl u lp rp direction P B ex [] stc sc = (stc, sc)"
    by (simp only: syncLoop.simps)
  from l1 l2 l3 l4 have loop: "syncLoop E cl u lp rp direction P B ex [?f1, ?f2, ?f3] st0 s = (stc, sc)"
    by (simp only: l_name.simps)
  from syncEntry_file_ok [OF e1] syncEntry_file_ok [OF e3]
  have "uploaded stc + skipped stc = uploaded st0 + skipped st0 + 2"
    and "errors stc = errors st0 @ [path_join E lp nb @ '': '' @ msgb]"
    by simp_all
  with loop show ?thesis
    by (simp only: simp_thms)
qed

lemma syncLoop_stat_error:
  assumes "\<not> shouldIgnore E (path_join E lp nm) pats base"
  shows "syncLoop E cl u lp rp direction pats base ex (LFile nm (Inl msg) # rest) st s =
         syncLoop E cl u lp rp direction pats base ex rest
           (st\<lparr>errors := errors st @ [path_join E lp nm @ '': '' @ msg]\<rparr>) s"
proof -
  have "syncEntry E cl u lp rp direction pats base ex (LFile nm (Inl msg))
          (path_join E lp (l_name (LFile nm (Inl msg)))) (rp @ ''/'' @ l_name (LFile nm (Inl msg))) st s
        = (Inl msg, st, s)"
    by simp
  from syncLoop_step_error [OF _ this] assms show ?thesis
    by simp
qed

lemma syncLoop_transfer_error:
  assumes "\<not> shouldIgnore E (path_join E lp nm) pats base"
    and "remoteLookup cl u rp (rp @ ''/'' @ nm) nm s = (found, sl)"
    and "\<not> skipUpload mtime found"
    and "transfer cl u (path_join E lp nm) (rp @ ''/'' @ nm) sl = (Inl msg, sb)"
  shows "syncLoop E cl u lp rp direction pats base ex (LFile nm (Inr mtime) # rest) st s =
         syncLoop E cl u lp rp direction pats base ex rest
           (st\<lparr>errors := errors st @ [path_join E lp nm @ '': '' @ msg]\<rparr>) sb"
  using syncLoop_file_step [OF assms(1,2), of direction ex mtime rest st] assms(3,4)
  by simp

lemma syncLoop_mkdir_error:
  assumes "\<not> shouldIgnore E (path_join E lp nm) pats base"
    and "makeRemoteDir cl u (rp @ ''/'' @ nm) s = (Inl msg, sb)"
  shows "syncLoop E cl u lp rp direction pats base ex (LDir nm subDir # rest) st s =
         syncLoop E cl u lp rp direction pats base ex rest
           (st\<lparr>errors := errors st @ [path_join E lp nm @ '': '' @ msg]\<rparr>) sb"
proof -
  from assms(2)
  have "syncEntry E cl u lp rp direction pats base ex (LDir nm subDir)
          (path_join E lp (l_name (LDir nm subDir))) (rp @ ''/'' @ l_name (LDir nm subDir)) st s
        = (Inl msg, st, sb)"
    by simp
  from syncLoop_step_error [OF _ this] assms(1) show ?thesis
    by simp
qed

lemma syncLoop_readdir_error:
  assumes "\<not> shouldIgnore E (path_join E lp nm) pats base"
    and "direction = ''upload'' \<or> direction = ''both''"
    and "makeRemoteDir cl u (rp @ ''/'' @ nm) s = (Inr (), sb)"
  shows "syncLoop E cl u lp rp direction pats base ex (LDir nm (Inl msg) # rest) st s =
         syncLoop E cl u lp rp direction pats base ex rest
           (st\<lparr>errors := errors st @ [path_join E lp nm @ '': '' @ msg]\<rparr>) sb"
proof -
  from assms(2,3)
  have "syncEntry E cl u lp rp direction pats base ex (LDir nm (Inl msg))
          (path_join E lp (l_name (LDir nm (Inl msg)))) (rp @ ''/'' @ l_name (LDir nm (Inl msg))) st s
        = (Inl msg, st, sb)"
    by (auto simp: syncFiles.simps Let_def)
  from syncLoop_step_error [OF _ this] assms(1) show ?thesis
    by simp
qed

text \<open>
  Claim C4, as the specification states it, fails: not every error raised while an entry
  is processed is recorded. An error of the remote metadata lookup is swallowed by the
  inner \<open>catch\<close>: here \<open>client.stat\<close> is refused, the file is uploaded and the report has
  no error.
\<close>

theorem lookup_error_not_recorded_counterexample:
  "cl_stat (mem_client demo_server) ''/www/locked.txt'' []
     = (Inl ''Permission denied'', [OpStat ''/www/locked.txt''])
   \<and> syncFiles literal_env (mem_client demo_server) True (Inr [LFile ''locked.txt'' (Inr 5)])
       ''/site'' ''/www'' ''upload'' None [] [] []
     = (Inr \<lparr>uploaded = 1, downloaded = 0, skipped = 0, errors = [], ignored = 0\<rparr>,
        [OpStat ''/www/locked.txt'', OpPut (FromPath ''/site/locked.txt'') ''/www/locked.txt''])"
  by (simp add: syncFiles.simps syncLoop.simps demo_simps loadIgnorePatterns_def
                DEFAULT_IGNORE_PATTERNS_def Let_def)

text \<open>
  Claim C4, amended. An error raised while one directory entry is processed by the local
  \<open>fs.stat\<close>, by the transfer, by the creation of the remote directory or by the listing
  of the local subdirectory is caught by the loop, appended to \<open>errors\<close> as
  \<open><path>: <message>\<close> with no counter changed, and the loop goes on with the next
  sibling (an error of the remote metadata lookup is not among them: it is swallowed).
  In particular, in an upload of a directory of three files in which the transfer of the
  second throws while the first and the third are processed normally, the report has
  \<open>uploaded + skipped = 2\<close> and exactly one error, for the second file's path, and it
  is the report reached after processing the third file.
\<close>

theorem entry_error_isolated:
  "(\<not> shouldIgnore E (path_join E lp nm) pats base \<longrightarrow>
      syncLoop E cl u lp rp direction pats base ex (LFile nm (Inl msg) # rest) st s =
      syncLoop E cl u lp rp direction pats base ex rest
        (st\<lparr>errors := errors st @ [path_join E lp nm @ '': '' @ msg]\<rparr>) s)
   \<and> (\<not> shouldIgnore E (path_join E lp nm) pats base
      \<and> remoteLookup cl u rp (rp @ ''/'' @ nm) nm s = (found, sl)
      \<and> \<not> skipUpload mtime found
      \<and> transfer cl u (path_join E lp nm) (rp @ ''/'' @ nm) sl = (Inl msg, sb) \<longrightarrow>
      syncLoop E cl u lp rp direction pats base ex (LFile nm (Inr mtime) # rest) st s =
      syncLoop E cl u lp rp direction pats base ex rest
        (st\<lparr>errors := errors st @ [path_join E lp nm @ '': '' @ msg]\<rparr>) sb)
   \<and> (\<not> shouldIgnore E (path_join E lp nm) pats base
      \<and> makeRemoteDir cl u (rp @ ''/'' @ nm) s = (Inl msg, sb) \<longrightarrow>
      syncLoop E cl u lp rp direction pats base ex (LDir nm subDir # rest) st s =
      syncLoop E cl u lp rp direction pats base ex rest
        (st\<lparr>errors := errors st @ [path_join E lp nm @ '': '' @ msg]\<rparr>) sb)
   \<and> (\<not> shouldIgnore E (path_join E lp nm) pats base
      \<and> (direction = ''upload'' \<or> direction = ''both'')
      \<and> makeRemoteDir cl u (rp @ ''/'' @ nm) s = (Inr (), sb) \<longrightarrow>
      syncLoop E cl u lp rp direction pats base ex (LDir nm (Inl msg) # rest) st s =
      syncLoop E cl u lp rp direction pats base ex rest
        (st\<lparr>errors := errors st @ [path_join E lp nm @ '': '' @ msg]\<rparr>) sb)
   \<and> (\<not> shouldIgnore E (path_join E lp na) (effectivePatterns E lp ipats ex) (effectiveBase lp ipats bpath)
      \<and> \<not> shouldIgnore E (path_join E lp nb) (effectivePatterns E lp ipats ex) (effectiveBase lp ipats bpath)
      \<and> \<not> shouldIgnore E (path_join E lp nc) (effectivePatterns E lp ipats ex) (effectiveBase lp ipats bpath)
      \<and> syncEntry E cl u lp rp ''upload'' (effectivePatterns E lp ipats ex) (effectiveBase lp ipats bpath) ex (LFile na (Inr ma))
           (path_join E lp na) (rp @ ''/'' @ na) stats0 q = (Inr (), sta, sa)
      \<and> remoteLookup cl u rp (rp @ ''/'' @ nb) nb sa = (foundb, sm)
      \<and> \<not> skipUpload mb foundb
      \<and> transfer cl u (path_join E lp nb) (rp @ ''/'' @ nb) sm = (Inl msgb, sn)
      \<and> syncEntry E cl u lp rp ''upload'' (effectivePatterns E lp ipats ex) (effectiveBase lp ipats bpath) ex (LFile nc (Inr mc))
           (path_join E lp nc) (rp @ ''/'' @ nc)
           (sta\<lparr>errors := errors sta @ [path_join E lp nb @ '': '' @ msgb]\<rparr>) sn = (Inr (), stc, sc)
    \<longrightarrow> syncFiles E cl u (Inr [LFile na (Inr ma), LFile nb (Inr mb), LFile nc (Inr mc)])
           lp rp ''upload'' ipats bpath ex q = (Inr stc, sc)
        \<and> uploaded stc + skipped stc = 2
        \<and> errors stc = [path_join E lp nb @ '': '' @ msgb])"
proof (intro conjI)
  show "\<not> shouldIgnore E (path_join E lp nm) pats base \<longrightarrow>
      syncLoop E cl u lp rp direction pats base ex (LFile nm (Inl msg) # rest) st s =
      syncLoop E cl u lp rp direction pats base ex rest
        (st\<lparr>errors := errors st @ [path_join E lp nm @ '': '' @ msg]\<rparr>) s"
    by (rule impI) (rule syncLoop_stat_error)
next
  show "\<not> shouldIgnore E (path_join E lp nm) pats base
      \<and> remoteLookup cl u rp (rp @ ''/'' @ nm) nm s = (found, sl)
      \<and> \<not> skipUpload mtime found
      \<and> transfer cl u (path_join E lp nm) (rp @ ''/'' @ nm) sl = (Inl msg, sb) \<longrightarrow>
      syncLoop E cl u lp rp direction pats base ex (LFile nm (Inr mtime) # rest) st s =
      syncLoop E cl u lp rp direction pats base ex rest
        (st\<lparr>errors := errors st @ [path_join E lp nm @ '': '' @ msg]\<rparr>) sb"
    by (rule impI, elim conjE) (rule syncLoop_transfer_error; assumption)
next
  show "\<not> shouldIgnore E (path_join E lp nm) pats base
      \<and> makeRemoteDir cl u (rp @ ''/'' @ nm) s = (Inl msg, sb) \<longrightarrow>
      syncLoop E cl u lp rp direction pats base ex (LDir nm subDir # rest) st s =
      syncLoop E cl u lp rp direction pats base ex rest
        (st\<lparr>errors := errors st @ [path_join E lp nm @ '': '' @ msg]\<rparr>) sb"
    by (rule impI, elim conjE) (rule syncLoop_mkdir_error; assumption)
next
  show "\<not> shouldIgnore E (path_join E lp nm) pats base
      \<and> (direction = ''upload'' \<or> direction = ''both'')
      \<and> makeRemoteDir cl u (rp @ ''/'' @ nm) s = (Inr (), sb) \<longrightarrow>
      syncLoop E cl u lp rp direction pats base ex (LDir nm (Inl msg) # rest) st s =
      syncLoop E cl u lp rp direction pats base ex rest
        (st\<lparr>errors := errors st @ [path_join E lp nm @ '': '' @ msg]\<rparr>) sb"
    by (rule impI, elim conjE) (rule syncLoop_readdir_error; assumption)
next
  let ?files = "[LFile na (Inr ma), LFile nb (Inr mb), LFile nc (Inr mc)]"
  show "\<not> shouldIgnore E (path_join E lp na) (effectivePatterns E lp ipats ex) (effectiveBase lp ipats bpath)
      \<and> \<not> shouldIgnore E (path_join E lp nb) (effectivePatterns E lp ipats ex) (effectiveBase lp ipats bpath)
      \<and> \<not> shouldIgnore E (path_join E lp nc) (effectivePatterns E lp ipats ex) (effectiveBase lp ipats bpath)
      \<and> syncEntry E cl u lp rp ''upload'' (effectivePatterns E lp ipats ex) (effectiveBase lp ipats bpath) ex (LFile na (Inr ma))
           (path_join E lp na) (rp @ ''/'' @ na) stats0 q = (Inr (), sta, sa)
      \<and> remoteLookup cl u rp (rp @ ''/'' @ nb) nb sa = (foundb, sm)
      \<and> \<not> skipUpload mb foundb
      \<and> transfer cl u (path_join E lp nb) (rp @ ''/'' @ nb) sm = (Inl msgb, sn)
      \<and> syncEntry E cl u lp rp ''upload'' (effectivePatterns E lp ipats ex) (effectiveBase lp ipats bpath) ex (LFile nc (Inr mc))
           (path_join E lp nc) (rp @ ''/'' @ nc)
           (sta\<lparr>errors := errors sta @ [path_join E lp nb @ '': '' @ msgb]\<rparr>) sn = (Inr (), stc, sc)
    \<longrightarrow> syncFiles E cl u (Inr ?files) lp rp ''upload'' ipats bpath ex q = (Inr stc, sc)
        \<and> uploaded stc + skipped stc = 2
        \<and> errors stc = [path_join E lp nb @ '': '' @ msgb]"
  proof (rule impI)
    assume H: "\<not> shouldIgnore E (path_join E lp na) (effectivePatterns E lp ipats ex) (effectiveBase lp ipats bpath)
      \<and> \<not> shouldIgnore E (path_join E lp nb) (effectivePatterns E lp ipats ex) (effectiveBase lp ipats bpath)
      \<and> \<not> shouldIgnore E (path_join E lp nc) (effectivePatterns E lp ipats ex) (effectiveBase lp ipats bpath)
      \<and> syncEntry E cl u lp rp ''upload'' (effectivePatterns E lp ipats ex) (effectiveBase lp ipats bpath) ex (LFile na (Inr ma))
           (path_join E lp na) (rp @ ''/'' @ na) stats0 q = (Inr (), sta, sa)
      \<and> remoteLookup cl u rp (rp @ ''/'' @ nb) nb sa = (foundb, sm)
      \<and> \<not> skipUpload mb foundb
      \<and> transfer cl u (path_join E lp nb) (rp @ ''/'' @ nb) sm = (Inl msgb, sn)
      \<and> syncEntry E cl u lp rp ''upload'' (effectivePatterns E lp ipats ex) (effectiveBase lp ipats bpath) ex (LFile nc (Inr mc))
           (path_join E lp nc) (rp @ ''/'' @ nc)
           (sta\<lparr>errors := errors sta @ [path_join E lp nb @ '': '' @ msgb]\<rparr>) sn = (Inr (), stc, sc)"
    have loop: "syncLoop E cl u lp rp ''upload'' (effectivePatterns E lp ipats ex) (effectiveBase lp ipats bpath) ex ?files stats0 q = (stc, sc)
         \<and> uploaded stc + skipped stc = uploaded stats0 + skipped stats0 + 2
         \<and> errors stc = errors stats0 @ [path_join E lp nb @ '': '' @ msgb]"
      using H by (elim conjE) (rule three_files_second_fails; assumption)
    have run: "syncFiles E cl u (Inr ?files) lp rp ''upload'' ipats bpath ex q =
         (case syncLoop E cl u lp rp ''upload'' (effectivePatterns E lp ipats ex) (effectiveBase lp ipats bpath) ex ?files stats0 q of (st, s') \<Rightarrow> (Inr st, s'))"
      by (rule syncFiles_upload) simp
    from loop run
    show "syncFiles E cl u (Inr ?files) lp rp ''upload'' ipats bpath ex q = (Inr stc, sc)
        \<and> uploaded stc + skipped stc = 2
        \<and> errors stc = [path_join E lp nb @ '': '' @ msgb]"
      by (simp add: stats0_def)
  qed
qed

theorem entry_error_isolated_witness:
  "\<not> shouldIgnore literal_env (path_join literal_env ''/site'' ''broken'') DEFAULT_IGNORE_PATTERNS ''/site''
   \<and> syncLoop literal_env (mem_client demo_server) False ''/site'' ''/www'' ''upload''
         DEFAULT_IGNORE_PATTERNS ''/site'' [] [LFile ''broken'' (Inl ''ENOENT'')] stats0 []
       = (stats0\<lparr>errors := [''/site/broken: ENOENT'']\<rparr>, [])
   \<and> transfer (mem_client demo_server) False (path_join literal_env ''/site'' ''c.txt'')
         (''/www'' @ ''/'' @ ''c.txt'') [OpList ''/www'']
       = (Inl ''Permission denied'', [OpList ''/www'', OpUploadFrom ''/site/c.txt'' ''/www/c.txt''])
   \<and> syncLoop literal_env (mem_client demo_server) False ''/site'' ''/www'' ''upload''
         DEFAULT_IGNORE_PATTERNS ''/site'' [] [LFile ''c.txt'' (Inr 20)] stats0 []
       = (stats0\<lparr>errors := [''/site/c.txt: Permission denied'']\<rparr>,
          [OpList ''/www'', OpUploadFrom ''/site/c.txt'' ''/www/c.txt''])
   \<and> makeRemoteDir (mem_client demo_server) False (''/www'' @ ''/'' @ ''ro'') []
       = (Inl ''Permission denied'', [OpEnsureDir ''/www/ro''])
   \<and> syncLoop literal_env (mem_client demo_server) False ''/site'' ''/www'' ''upload''
         DEFAULT_IGNORE_PATTERNS ''/site'' [] [LDir ''ro'' (Inr [LFile ''x.txt'' (Inr 1)])] stats0 []
       = (stats0\<lparr>errors := [''/site/ro: Permission denied'']\<rparr>, [OpEnsureDir ''/www/ro''])
   \<and> makeRemoteDir (mem_client demo_server) False (''/www'' @ ''/'' @ ''bad'') []
       = (Inr (), [OpEnsureDir ''/www/bad''])
   \<and> syncLoop literal_env (mem_client demo_server) False ''/site'' ''/www'' ''upload''
         DEFAULT_IGNORE_PATTERNS ''/site'' [] [LDir ''bad'' (Inl ''EACCES'')] stats0 []
       = (stats0\<lparr>errors := [''/site/bad: EACCES'']\<rparr>, [OpEnsureDir ''/www/bad''])
   \<and> syncFiles literal_env (mem_client demo_server) False
         (Inr [LFile ''a.txt'' (Inr 5), LFile ''c.txt'' (Inr 20), LFile ''b.txt'' (Inr 50)])
         ''/site'' ''/www'' ''upload'' None [] [] []
       = (Inr \<lparr>uploaded = 1, downloaded = 0, skipped = 1,
                errors = [''/site/c.txt: Permission denied''], ignored = 0\<rparr>,
          [OpList ''/www'', OpUploadFrom ''/site/a.txt'' ''/www/a.txt'',
           OpList ''/www'', OpUploadFrom ''/site/c.txt'' ''/www/c.txt'', OpList ''/www''])"
proof -
  have ni: "\<And>n. n \<in> {''broken'', ''c.txt'', ''ro'', ''bad''} \<Longrightarrow>
       \<not> shouldIgnore literal_env (path_join literal_env ''/site'' n) DEFAULT_IGNORE_PATTERNS ''/site''"
    by (auto simp: demo_simps DEFAULT_IGNORE_PATTERNS_def)
  note T = entry_error_isolated [where E = literal_env and cl = "mem_client demo_server" and u = False
         and lp = "''/site''" and rp = "''/www''" and ex = "[]" and direction = "''upload''"
         and pats = DEFAULT_IGNORE_PATTERNS and base = "''/site''" and rest = "[]" and st = stats0
         and s = "[]"]
  have a: "syncLoop literal_env (mem_client demo_server) False ''/site'' ''/www'' ''upload''
         DEFAULT_IGNORE_PATTERNS ''/site'' [] [LFile ''broken'' (Inl ''ENOENT'')] stats0 []
       = (stats0\<lparr>errors := [''/site/broken: ENOENT'']\<rparr>, [])"
    using T [where nm = "''broken''" and msg = "''ENOENT''", THEN conjunct1] ni [of "''broken''"]
    by (simp add: literal_env_def stats0_def)
  have tf: "transfer (mem_client demo_server) False (path_join literal_env ''/site'' ''c.txt'')
         (''/www'' @ ''/'' @ ''c.txt'') [OpList ''/www'']
       = (Inl ''Permission denied'', [OpList ''/www'', OpUploadFrom ''/site/c.txt'' ''/www/c.txt''])"
    by (simp add: demo_simps)
  have b: "syncLoop literal_env (mem_client demo_server) False ''/site'' ''/www'' ''upload''
         DEFAULT_IGNORE_PATTERNS ''/site'' [] [LFile ''c.txt'' (Inr 20)] stats0 []
       = (stats0\<lparr>errors := [''/site/c.txt: Permission denied'']\<rparr>,
          [OpList ''/www'', OpUploadFrom ''/site/c.txt'' ''/www/c.txt''])"
    using T [where nm = "''c.txt''" and msg = "''Permission denied''" and mtime = 20
               and found = "Inr (Some (plain_file ''c.txt'' 10))" and sl = "[OpList ''/www'']"
               and sb = "[OpList ''/www'', OpUploadFrom ''/site/c.txt'' ''/www/c.txt'']",
             THEN conjunct2, THEN conjunct1] ni [of "''c.txt''"]
    by (simp add: demo_simps)
  have mk: "makeRemoteDir (mem_client demo_server) False (''/www'' @ ''/'' @ ''ro'') []
       = (Inl ''Permission denied'', [OpEnsureDir ''/www/ro''])"
    by (simp add: demo_simps)
  have c: "syncLoop literal_env (mem_client demo_server) False ''/site'' ''/www'' ''upload''
         DEFAULT_IGNORE_PATTERNS ''/site'' [] [LDir ''ro'' (Inr [LFile ''x.txt'' (Inr 1)])] stats0 []
       = (stats0\<lparr>errors := [''/site/ro: Permission denied'']\<rparr>, [OpEnsureDir ''/www/ro''])"
    using T [where nm = "''ro''" and msg = "''Permission denied''" and sb = "[OpEnsureDir ''/www/ro'']"
               and subDir = "Inr [LFile ''x.txt'' (Inr 1)]",
             THEN conjunct2, THEN conjunct2, THEN conjunct1] ni [of "''ro''"] mk
    by (simp add: literal_env_def stats0_def)
  have mk2: "makeRemoteDir (mem_client demo_server) False (''/www'' @ ''/'' @ ''bad'') []
       = (Inr (), [OpEnsureDir ''/www/bad''])"
    by (simp add: demo_simps)
  have d: "syncLoop literal_env (mem_client demo_server) False ''/site'' ''/www'' ''upload''
         DEFAULT_IGNORE_PATTERNS ''/site'' [] [LDir ''bad'' (Inl ''EACCES'')] stats0 []
       = (stats0\<lparr>errors := [''/site/bad: EACCES'']\<rparr>, [OpEnsureDir ''/www/bad''])"
    using T [where nm = "''bad''" and msg = "''EACCES''" and sb = "[OpEnsureDir ''/www/bad'']",
             THEN conjunct2, THEN conjunct2, THEN conjunct2, THEN conjunct1] ni [of "''bad''"] mk2
    by (simp add: literal_env_def stats0_def)
  have three: "syncFiles literal_env (mem_client demo_server) False
         (Inr [LFile ''a.txt'' (Inr 5), LFile ''c.txt'' (Inr 20), LFile ''b.txt'' (Inr 50)])
         ''/site'' ''/www'' ''upload'' None [] [] []
       = (Inr \<lparr>uploaded = 1, downloaded = 0, skipped = 1,
                errors = [''/site/c.txt: Permission denied''], ignored = 0\<rparr>,
          [OpList ''/www'', OpUploadFrom ''/site/a.txt'' ''/www/a.txt'',
           OpList ''/www'', OpUploadFrom ''/site/c.txt'' ''/www/c.txt'', OpList ''/www''])"
    using entry_error_isolated
      [where E = literal_env and cl = "mem_client demo_server" and u = False
         and lp = "''/site''" and rp = "''/www''" and ex = "[]" and ipats = None
         and bpath = "[]" and q = "[]"
         and na = "''a.txt''" and ma = 5 and nb = "''c.txt''" and mb = 20 and nc = "''b.txt''" and mc = 50
         and sta = "stats0\<lparr>uploaded := 1\<rparr>"
         and sa = "[OpList ''/www'', OpUploadFrom ''/site/a.txt'' ''/www/a.txt'']"
         and foundb = "Inr (Some (plain_file ''c.txt'' 10))"
         and sm = "[OpList ''/www'', OpUploadFrom ''/site/a.txt'' ''/www/a.txt'', OpList ''/www'']"
         and msgb = "''Permission denied''"
         and sn = "[OpList ''/www'', OpUploadFrom ''/site/a.txt'' ''/www/a.txt'',
                    OpList ''/www'', OpUploadFrom ''/site/c.txt'' ''/www/c.txt'']"
         and stc = "\<lparr>uploaded = 1, downloaded = 0, skipped = 1,
                      errors = [''/site/c.txt: Permission denied''], ignored = 0\<rparr>"
         and sc = "[OpList ''/www'', OpUploadFrom ''/site/a.txt'' ''/www/a.txt'',
                    OpList ''/www'', OpUploadFrom ''/site/c.txt'' ''/www/c.txt'', OpList ''/www'']",
       THEN conjunct2, THEN conjunct2, THEN conjunct2, THEN conjunct2]
    by (simp add: demo_simps effectivePatterns_def effectiveBase_def loadIgnorePatterns_def
                  DEFAULT_IGNORE_PATTERNS_def)
  from ni [of "''broken''"] a tf b mk c mk2 d three show ?thesis
    by (simp only: insertI1 simp_thms)
qed

section \<open>Tool handlers: results\<close>

text \<open>
  Claim C7. The exists operation never fails: for every path it answers \<open>true\<close> or
  \<open>false\<close> and never an error, and any error thrown by its lookup (\<open>client.stat\<close> on
  SFTP, listing the parent directory on FTP), a permission denial as much as a missing
  path, gives \<open>false\<close>.
\<close>

theorem exists_never_fails:
  "(\<exists>b s1. ftp_exists cl useSFTP path s =
             (\<lparr>r_text = (if b then ''true'' else ''false''), r_isError = False\<rparr>, s1))
   \<and> (useSFTP \<and> cl_stat cl path s = (Inl e, s1) \<longrightarrow>
        ftp_exists cl useSFTP path s = (\<lparr>r_text = ''false'', r_isError = False\<rparr>, s1))
   \<and> (\<not> useSFTP \<and> cl_list cl (exists_dirPath path) s = (Inl e, s1) \<longrightarrow>
        ftp_exists cl useSFTP path s = (\<lparr>r_text = ''false'', r_isError = False\<rparr>, s1))"
proof (intro conjI)
  obtain r s' where l: "exists_lookup cl useSFTP path s = (r, s')"
    by (cases "exists_lookup cl useSFTP path s")
  show "\<exists>b s1. ftp_exists cl useSFTP path s =
             (\<lparr>r_text = (if b then ''true'' else ''false''), r_isError = False\<rparr>, s1)"
  proof (cases r)
    case (Inl e)
    with l have "ftp_exists cl useSFTP path s =
             (\<lparr>r_text = (if False then ''true'' else ''false''), r_isError = False\<rparr>, s')"
      by (simp add: ftp_exists_def)
    then show ?thesis by blast
  next
    case (Inr b)
    with l have "ftp_exists cl useSFTP path s =
             (\<lparr>r_text = (if b then ''true'' else ''false''), r_isError = False\<rparr>, s')"
      by (simp add: ftp_exists_def)
    then show ?thesis by blast
  qed
next
  show "useSFTP \<and> cl_stat cl path s = (Inl e, s1) \<longrightarrow>
        ftp_exists cl useSFTP path s = (\<lparr>r_text = ''false'', r_isError = False\<rparr>, s1)"
    by (simp add: ftp_exists_def exists_lookup_def)
next
  show "\<not> useSFTP \<and> cl_list cl (exists_dirPath path) s = (Inl e, s1) \<longrightarrow>
        ftp_exists cl useSFTP path s = (\<lparr>r_text = ''false'', r_isError = False\<rparr>, s1)"
    by (simp add: ftp_exists_def exists_lookup_def)
qed

theorem exists_never_fails_witness:
  "cl_stat (mem_client demo_server) ''/private'' [] = (Inl ''Permission denied'', [OpStat ''/private''])
   \<and> ftp_exists (mem_client demo_server) True ''/private'' []
       = (\<lparr>r_text = ''false'', r_isError = False\<rparr>, [OpStat ''/private''])
   \<and> cl_list (mem_client demo_server) (exists_dirPath ''/private/key.pem'') []
       = (Inl ''Permission denied'', [OpList ''/private''])
   \<and> ftp_exists (mem_client demo_server) False ''/private/key.pem'' []
       = (\<lparr>r_text = ''false'', r_isError = False\<rparr>, [OpList ''/private''])"
proof -
  have st: "cl_stat (mem_client demo_server) ''/private'' [] = (Inl ''Permission denied'', [OpStat ''/private''])"
    by (simp add: demo_simps)
  have ls: "cl_list (mem_client demo_server) (exists_dirPath ''/private/key.pem'') []
       = (Inl ''Permission denied'', [OpList ''/private''])"
    by (simp add: demo_simps exists_dirPath_def substring_def)
  from exists_never_fails [of "mem_client demo_server" True "''/private''" "[]"
         "''Permission denied''" "[OpStat ''/private'']"] st
  have a: "ftp_exists (mem_client demo_server) True ''/private'' []
       = (\<lparr>r_text = ''false'', r_isError = False\<rparr>, [OpStat ''/private''])"
    by simp
  from exists_never_fails [of "mem_client demo_server" False "''/private/key.pem''" "[]"
         "''Permission denied''" "[OpList ''/private'']"] ls
  have b: "ftp_exists (mem_client demo_server) False ''/private/key.pem'' []
       = (\<lparr>r_text = ''false'', r_isError = False\<rparr>, [OpList ''/private''])"
    by simp
  from st a ls b show ?thesis
    by (simp only: simp_thms)
qed

text \<open>
  Claim C2, as the specification states it, fails: on SFTP the copy succeeds by reading
  the source and writing what was read to the destination. The log of the calls made to
  the server is a \<open>get\<close> of the source followed by a \<open>put\<close> of its content.
\<close>

theorem copy_reads_then_writes_counterexample:
  "ftp_copy (mem_client demo_server) True ''/www/b.txt'' ''/www/b2.txt'' []
     = (\<lparr>r_text = ''Successfully copied /www/b.txt to /www/b2.txt'', r_isError = False\<rparr>,
        [OpGet ''/www/b.txt'', OpPut (FromBuffer ''hello'') ''/www/b2.txt''])"
  by (simp add: ftp_copy_def demo_simps)

text \<open>
  Claim C2, amended. On FTP, where there is no copy capability, the copy is refused with
  an error text and no call is made to the server, so that source and destination are
  left untouched. On SFTP the copy reads the source with \<open>get\<close> and writes the buffer to
  the destination with \<open>put\<close>; an error of either call is reported as an error.
\<close>

theorem copy_unsupported_or_read_write:
  "(\<not> useSFTP \<longrightarrow>
      ftp_copy cl useSFTP sourcePath destPath s =
        (\<lparr>r_text = ''Error: ftp_copy is only supported for SFTP connections. For FTP, download and re-upload.'',
          r_isError = False\<rparr>, s))
   \<and> (useSFTP \<and> cl_get cl sourcePath s = (Inl msg, s1) \<longrightarrow>
        ftp_copy cl useSFTP sourcePath destPath s = (error_response msg, s1))
   \<and> (useSFTP \<and> cl_get cl sourcePath s = (Inr buffer, s1) \<longrightarrow>
        ftp_copy cl useSFTP sourcePath destPath s =
          (case cl_put cl (FromBuffer buffer) destPath s1 of
             (Inl msg, s2) \<Rightarrow> (error_response msg, s2)
           | (Inr u, s2) \<Rightarrow>
               (\<lparr>r_text = ''Successfully copied '' @ sourcePath @ '' to '' @ destPath,
                 r_isError = False\<rparr>, s2)))"
proof (intro conjI impI)
  assume "\<not> useSFTP"
  then show "ftp_copy cl useSFTP sourcePath destPath s =
        (\<lparr>r_text = ''Error: ftp_copy is only supported for SFTP connections. For FTP, download and re-upload.'',
          r_isError = False\<rparr>, s)"
    by (simp add: ftp_copy_def)
next
  assume "useSFTP \<and> cl_get cl sourcePath s = (Inl msg, s1)"
  then show "ftp_copy cl useSFTP sourcePath destPath s = (error_response msg, s1)"
    by (simp add: ftp_copy_def)
next
  assume "useSFTP \<and> cl_get cl sourcePath s = (Inr buffer, s1)"
  then show "ftp_copy cl useSFTP sourcePath destPath s =
          (case cl_put cl (FromBuffer buffer) destPath s1 of
             (Inl msg, s2) \<Rightarrow> (error_response msg, s2)
           | (Inr u, s2) \<Rightarrow>
               (\<lparr>r_text = ''Successfully copied '' @ sourcePath @ '' to '' @ destPath,
                 r_isError = False\<rparr>, s2))"
    by (simp add: ftp_copy_def)
qed

theorem copy_unsupported_or_read_write_witness:
  "ftp_copy (mem_client demo_server) False ''/www/b.txt'' ''/www/b2.txt'' []
     = (\<lparr>r_text = ''Error: ftp_copy is only supported for SFTP connections. For FTP, download and re-upload.'',
         r_isError = False\<rparr>, [])
   \<and> cl_get (mem_client demo_server) ''/www/zz.txt'' [] = (Inl ''No such file'', [OpGet ''/www/zz.txt''])
   \<and> ftp_copy (mem_client demo_server) True ''/www/zz.txt'' ''/www/b2.txt'' []
     = (\<lparr>r_text = ''Error: No such file'', r_isError = True\<rparr>, [OpGet ''/www/zz.txt''])
   \<and> cl_get (mem_client demo_server) ''/www/b.txt'' [] = (Inr ''hello'', [OpGet ''/www/b.txt''])
   \<and> ftp_copy (mem_client demo_server) True ''/www/b.txt'' ''/www/c.txt'' []
     = (\<lparr>r_text = ''Error: Permission denied'', r_isError = True\<rparr>,
        [OpGet ''/www/b.txt'', OpPut (FromBuffer ''hello'') ''/www/c.txt''])"
proof -
  have g1: "cl_get (mem_client demo_server) ''/www/zz.txt'' [] = (Inl ''No such file'', [OpGet ''/www/zz.txt''])"
    and g2: "cl_get (mem_client demo_server) ''/www/b.txt'' [] = (Inr ''hello'', [OpGet ''/www/b.txt''])"
    by (simp_all add: demo_simps)
  from copy_unsupported_or_read_write [of False "mem_client demo_server" "''/www/b.txt''" "''/www/b2.txt''" "[]"]
  have a: "ftp_copy (mem_client demo_server) False ''/www/b.txt'' ''/www/b2.txt'' []
     = (\<lparr>r_text = ''Error: ftp_copy is only supported for SFTP connections. For FTP, download and re-upload.'',
         r_isError = False\<rparr>, [])"
    by simp
  from copy_unsupported_or_read_write [of True "mem_client demo_server" "''/www/zz.txt''" "''/www/b2.txt''" "[]"
         "''No such file''" "[OpGet ''/www/zz.txt'']"] g1
  have b: "ftp_copy (mem_client demo_server) True ''/www/zz.txt'' ''/www/b2.txt'' []
     = (\<lparr>r_text = ''Error: No such file'', r_isError = True\<rparr>, [OpGet ''/www/zz.txt''])"
    by (simp add: error_response_def)
  from copy_unsupported_or_read_write [of True "mem_client demo_server" "''/www/b.txt''" "''/www/c.txt''" "[]"
         _ "[OpGet ''/www/b.txt'']" "''hello''"] g2
  have c: "ftp_copy (mem_client demo_server) True ''/www/b.txt'' ''/www/c.txt'' []
     = (\<lparr>r_text = ''Error: Permission denied'', r_isError = True\<rparr>,
        [OpGet ''/www/b.txt'', OpPut (FromBuffer ''hello'') ''/www/c.txt''])"
    by (simp add: error_response_def demo_simps)
  from a g1 b g2 c show ?thesis
    by (simp only: simp_thms)
qed

section \<open>Tree walk: results\<close>

lemma descends_mk_entry:
  "descends (mk_entry useSFTP p f) = (entry_isDir useSFTP f \<and> rf_name f \<noteq> ''.'' \<and> rf_name f \<noteq> ''..'')"
  by (simp add: descends_def mk_entry_def)

lemma te_path_mk_entry: "te_path (mk_entry useSFTP p f) = entry_fullPath p f"
  by (simp add: mk_entry_def)

lemma getTreeLoop_walk:
  assumes rec: "\<And>p s. if L p then fst (getTreeRecursive cl useSFTP p (depth + 1) maxDepth s) = Inr (W p)
                        else (\<exists>m. fst (getTreeRecursive cl useSFTP p (depth + 1) maxDepth s) = Inl m)"
  shows "if list_all (\<lambda>f. \<not> descends (mk_entry useSFTP remotePath f) \<or> L (entry_fullPath remotePath f)) files
         then fst (getTreeLoop cl useSFTP remotePath depth maxDepth files results s)
                = Inr (results @ concat (map (\<lambda>f. mk_entry useSFTP remotePath f #
                     (if descends (mk_entry useSFTP remotePath f)
                      then W (te_path (mk_entry useSFTP remotePath f)) else [])) files))
         else (\<exists>m. fst (getTreeLoop cl useSFTP remotePath depth maxDepth files results s) = Inl m)"
proof (induction files arbitrary: results s)
  case Nil
  show ?case by simp
next
  case (Cons f rest)
  define c where "c = (entry_isDir useSFTP f \<and> rf_name f \<noteq> ''.'' \<and> rf_name f \<noteq> ''..'')"
  have d: "descends (mk_entry useSFTP remotePath f) = c"
    by (simp add: descends_mk_entry c_def)
  have step: "getTreeLoop cl useSFTP remotePath depth maxDepth (f # rest) results s =
     (if c then
        (case getTreeRecursive cl useSFTP (entry_fullPath remotePath f) (depth + 1) maxDepth s of
           (Inl msg, s1) \<Rightarrow> (Inl msg, s1)
         | (Inr cs, s1) \<Rightarrow>
             getTreeLoop cl useSFTP remotePath depth maxDepth rest
               (results @ [mk_entry useSFTP remotePath f] @ cs) s1)
      else getTreeLoop cl useSFTP remotePath depth maxDepth rest
             (results @ [mk_entry useSFTP remotePath f]) s)"
    unfolding c_def by (rule getTreeLoop.simps)
  show ?case
  proof (cases c)
    case True
    obtain r s1 where g: "getTreeRecursive cl useSFTP (entry_fullPath remotePath f) (depth + 1) maxDepth s = (r, s1)"
      by (cases "getTreeRecursive cl useSFTP (entry_fullPath remotePath f) (depth + 1) maxDepth s")
    show ?thesis
    proof (cases "L (entry_fullPath remotePath f)")
      case ok: True
      with rec [of "entry_fullPath remotePath f" s] g
      have r: "r = Inr (W (entry_fullPath remotePath f))"
        by simp
      from True ok g r Cons.IH [of "results @ [mk_entry useSFTP remotePath f] @ W (entry_fullPath remotePath f)" s1]
      show ?thesis
        by (simp only: step) (simp add: te_path_mk_entry d split: if_splits)
    next
      case bad: False
      with rec [of "entry_fullPath remotePath f" s] g
      obtain m where r: "r = Inl m"
        by auto
      from True bad g r show ?thesis
        by (simp only: step) (simp add: d)
    qed
  next
    case False
    with Cons.IH [of "results @ [mk_entry useSFTP remotePath f]" s]
    show ?thesis
      by (simp only: step) (simp add: d split: if_splits)
  qed
qed

lemma getTreeRecursive_walk:
  assumes pure: "\<And>p s. fst (cl_list cl p s) = lsr p"
  shows "nat (maxDepth + 1 - depth) = n \<Longrightarrow>
         (if listable lsr useSFTP n remotePath
          then fst (getTreeRecursive cl useSFTP remotePath depth maxDepth s)
                 = Inr (walk (listed lsr) useSFTP n remotePath)
          else (\<exists>m. fst (getTreeRecursive cl useSFTP remotePath depth maxDepth s) = Inl m))"
proof (induction n arbitrary: depth remotePath s)
  case 0
  then have "depth > maxDepth" by simp
  then show ?case
    by (simp add: getTreeRecursive.simps)
next
  case (Suc k)
  then have le: "\<not> depth > maxDepth" and k: "nat (maxDepth + 1 - (depth + 1)) = k"
    by simp_all
  obtain r s1 where l: "cl_list cl remotePath s = (r, s1)"
    by (cases "cl_list cl remotePath s")
  with pure [of remotePath s] have r: "r = lsr remotePath"
    by simp
  show ?case
  proof (cases "lsr remotePath")
    case (Inl e)
    with le l r show ?thesis
      by (simp add: getTreeRecursive.simps)
  next
    case (Inr fs)
    have rec: "\<And>p s. if listable lsr useSFTP k p
                      then fst (getTreeRecursive cl useSFTP p (depth + 1) maxDepth s)
                             = Inr (walk (listed lsr) useSFTP k p)
                      else (\<exists>m. fst (getTreeRecursive cl useSFTP p (depth + 1) maxDepth s) = Inl m)"
      using Suc.IH [OF k] .
    have run: "getTreeRecursive cl useSFTP remotePath depth maxDepth s
                 = getTreeLoop cl useSFTP remotePath depth maxDepth fs [] s1"
      using le l r Inr by (simp add: getTreeRecursive.simps)
    have w: "walk (listed lsr) useSFTP (Suc k) remotePath
               = concat (map (\<lambda>f. mk_entry useSFTP remotePath f #
                     (if descends (mk_entry useSFTP remotePath f)
                      then walk (listed lsr) useSFTP k (te_path (mk_entry useSFTP remotePath f)) else [])) fs)"
      using Inr by (simp add: entriesOf_def listed_def comp_def)
    have lb: "listable lsr useSFTP (Suc k) remotePath
               = list_all (\<lambda>f. \<not> descends (mk_entry useSFTP remotePath f)
                                 \<or> listable lsr useSFTP k (entry_fullPath remotePath f)) fs"
      using Inr by simp
    from getTreeLoop_walk [of "listable lsr useSFTP k" cl useSFTP depth maxDepth
                              "walk (listed lsr) useSFTP k", OF rec, of remotePath fs "[]" s1]
    show ?thesis
      by (simp only: run w lb append_Nil)
  qed
qed

lemma in_at_depth_Suc:
  "e \<in> set (at_depth ls useSFTP (Suc k) p) \<longleftrightarrow>
     (\<exists>c \<in> set (entriesOf ls useSFTP p). descends c \<and> e \<in> set (at_depth ls useSFTP k (te_path c)))"
  by (auto split: if_splits)

lemma in_walk_Suc:
  "e \<in> set (walk ls useSFTP (Suc n) p) \<longleftrightarrow>
     e \<in> set (entriesOf ls useSFTP p)
     \<or> (\<exists>c \<in> set (entriesOf ls useSFTP p). descends c \<and> e \<in> set (walk ls useSFTP n (te_path c)))"
  by (auto split: if_splits)

lemma ex_le_Suc: "(\<exists>k. k \<le> Suc m \<and> P k) \<longleftrightarrow> P 0 \<or> (\<exists>k. k \<le> m \<and> P (Suc k))"
proof
  assume "\<exists>k. k \<le> Suc m \<and> P k"
  then obtain k where k: "k \<le> Suc m" "P k" by blast
  show "P 0 \<or> (\<exists>k. k \<le> m \<and> P (Suc k))"
  proof (cases k)
    case 0
    with k show ?thesis by simp
  next
    case (Suc j)
    with k show ?thesis by auto
  qed
next
  assume "P 0 \<or> (\<exists>k. k \<le> m \<and> P (Suc k))"
  then show "\<exists>k. k \<le> Suc m \<and> P k"
    by (metis Suc_le_mono le0)
qed

lemma in_walk_iff_depth:
  "e \<in> set (walk ls useSFTP (Suc m) p) \<longleftrightarrow> (\<exists>k. k \<le> m \<and> e \<in> set (at_depth ls useSFTP k p))"
proof (induction m arbitrary: p)
  case 0
  show ?case
    by (simp only: in_walk_Suc walk.simps) simp
next
  case (Suc m)
  have "e \<in> set (walk ls useSFTP (Suc (Suc m)) p) \<longleftrightarrow>
        e \<in> set (entriesOf ls useSFTP p)
        \<or> (\<exists>c \<in> set (entriesOf ls useSFTP p). descends c
              \<and> (\<exists>k. k \<le> m \<and> e \<in> set (at_depth ls useSFTP k (te_path c))))"
    by (simp only: in_walk_Suc [of e ls useSFTP "Suc m"] Suc.IH)
  also have "\<dots> \<longleftrightarrow> e \<in> set (at_depth ls useSFTP 0 p)
        \<or> (\<exists>k. k \<le> m \<and> e \<in> set (at_depth ls useSFTP (Suc k) p))"
  proof -
    have "\<And>k. e \<in> set (at_depth ls useSFTP (Suc k) p) \<longleftrightarrow>
       (\<exists>c \<in> set (entriesOf ls useSFTP p). descends c \<and> e \<in> set (at_depth ls useSFTP k (te_path c)))"
      by (rule in_at_depth_Suc)
    moreover have "at_depth ls useSFTP 0 p = entriesOf ls useSFTP p"
      by simp
    ultimately show ?thesis
      by (simp only:) blast
  qed
  also have "\<dots> \<longleftrightarrow> (\<exists>k. k \<le> Suc m \<and> e \<in> set (at_depth ls useSFTP k p))"
    by (simp only: ex_le_Suc [of m "\<lambda>k. e \<in> set (at_depth ls useSFTP k p)"])
  finally show ?case .
qed

lemma getTreeLoop_at_bound:
  assumes "maxDepth \<le> depth"
  shows "getTreeLoop cl useSFTP remotePath depth maxDepth files results s
           = (Inr (results @ map (mk_entry useSFTP remotePath) files), s)"
proof (induction files arbitrary: results)
  case Nil
  show ?case by simp
next
  case (Cons f rest)
  from assms have "getTreeRecursive cl useSFTP (entry_fullPath remotePath f) (depth + 1) maxDepth s = (Inr [], s)"
    by (simp add: getTreeRecursive.simps)
  with Cons.IH [of "results @ [mk_entry useSFTP remotePath f]"] show ?case
    by simp
qed

lemma getTreeRecursive_zero:
  "getTreeRecursive cl useSFTP startPath 0 0 s =
     (case cl_list cl startPath s of
        (Inl msg, s1) \<Rightarrow> (Inl msg, s1)
      | (Inr files, s1) \<Rightarrow> (Inr (map (mk_entry useSFTP startPath) files), s1))"
  by (simp add: getTreeRecursive.simps getTreeLoop_at_bound split: prod.splits sum.splits)

lemma walk_one: "walk ls useSFTP (Suc 0) p = entriesOf ls useSFTP p"
proof -
  have "(\<lambda>e. e # (if descends e then walk ls useSFTP 0 (te_path e) else [])) = (\<lambda>e. [e])"
    by (simp add: fun_eq_iff)
  then show ?thesis
    by simp
qed

text \<open>
  Claim C5. For every start path, on a server where the result of listing a directory
  depends on its path only: the walk returns (rather than fail with the error of a
  listing) exactly when every directory it has to list, down to \<open>maxDepth\<close> levels below
  the start path, can be listed; and a walk that returns has exactly the entries whose
  depth is at most \<open>maxDepth\<close>, depth being counted in directory levels from 0 for the
  immediate children of the start path. With \<open>maxDepth = 0\<close> these are the immediate
  children only, and the start path is the only directory listed (the connection is left
  in the state its listing leaves); with \<open>maxDepth = 1\<close> each first-level directory is
  followed by its own children and nothing deeper.
\<close>

theorem tree_walk_depth_bound:
  assumes "\<forall>p s. fst (cl_list cl p s) = lsr p"
  shows "((\<exists>es. fst (getTreeRecursive cl useSFTP startPath 0 maxDepth s) = Inr es)
            \<longleftrightarrow> listable lsr useSFTP (nat (maxDepth + 1)) startPath)
         \<and> (\<forall>es. fst (getTreeRecursive cl useSFTP startPath 0 maxDepth s) = Inr es \<longrightarrow>
              (\<forall>e. e \<in> set es \<longleftrightarrow>
                   (\<exists>k. int k \<le> maxDepth \<and> e \<in> set (at_depth (listed lsr) useSFTP k startPath)))
              \<and> (maxDepth = 0 \<longrightarrow> es = entriesOf (listed lsr) useSFTP startPath)
              \<and> (maxDepth = 1 \<longrightarrow>
                   es = concat (map (\<lambda>e. e # (if descends e
                                               then entriesOf (listed lsr) useSFTP (te_path e) else []))
                                    (entriesOf (listed lsr) useSFTP startPath))))
         \<and> (maxDepth = 0 \<longrightarrow>
              snd (getTreeRecursive cl useSFTP startPath 0 maxDepth s) = snd (cl_list cl startPath s))"
proof -
  let ?ls = "listed lsr"
  let ?n = "nat (maxDepth + 1)"
  let ?es = "walk ?ls useSFTP ?n startPath"
  let ?run = "fst (getTreeRecursive cl useSFTP startPath 0 maxDepth s)"
  from assms have pure: "\<And>p s. fst (cl_list cl p s) = lsr p"
    by simp
  have "nat (maxDepth + 1 - 0) = ?n"
    by simp
  from getTreeRecursive_walk [OF pure this, of useSFTP startPath s]
  have run: "if listable lsr useSFTP ?n startPath then ?run = Inr ?es else (\<exists>m. ?run = Inl m)" .
  have returns: "(\<exists>es. ?run = Inr es) \<longleftrightarrow> listable lsr useSFTP ?n startPath"
  proof (cases "listable lsr useSFTP ?n startPath")
    case True
    with run show ?thesis by simp
  next
    case False
    with run obtain m where "?run = Inl m" by auto
    with False show ?thesis by simp
  qed
  have mem: "\<forall>e. e \<in> set ?es \<longleftrightarrow> (\<exists>k. int k \<le> maxDepth \<and> e \<in> set (at_depth ?ls useSFTP k startPath))"
  proof (cases "maxDepth < 0")
    case True
    then have "?n = 0" by simp
    moreover from True have "\<And>k. \<not> int k \<le> maxDepth" by simp
    ultimately show ?thesis by simp
  next
    case False
    then have n: "?n = Suc (nat maxDepth)" by simp
    from False have "\<And>k. (k \<le> nat maxDepth) = (int k \<le> maxDepth)" by auto
    with in_walk_iff_depth [of _ ?ls useSFTP "nat maxDepth" startPath] n show ?thesis
      by simp
  qed
  have zero: "maxDepth = 0 \<longrightarrow> ?es = entriesOf ?ls useSFTP startPath"
  proof
    assume "maxDepth = 0"
    then have "?n = Suc 0" by simp
    then show "?es = entriesOf ?ls useSFTP startPath"
      by (simp only: walk_one)
  qed
  have one: "maxDepth = 1 \<longrightarrow>
                ?es = concat (map (\<lambda>e. e # (if descends e then entriesOf ?ls useSFTP (te_path e) else []))
                                 (entriesOf ?ls useSFTP startPath))"
  proof
    assume "maxDepth = 1"
    then have "?n = Suc (Suc 0)" by simp
    moreover note walk_one [of ?ls useSFTP]
    ultimately show "?es = concat (map (\<lambda>e. e # (if descends e then entriesOf ?ls useSFTP (te_path e) else []))
                                 (entriesOf ?ls useSFTP startPath))"
      by (simp only: walk.simps)
  qed
  have result: "\<forall>es. ?run = Inr es \<longrightarrow>
              (\<forall>e. e \<in> set es \<longleftrightarrow> (\<exists>k. int k \<le> maxDepth \<and> e \<in> set (at_depth ?ls useSFTP k startPath)))
              \<and> (maxDepth = 0 \<longrightarrow> es = entriesOf ?ls useSFTP startPath)
              \<and> (maxDepth = 1 \<longrightarrow>
                   es = concat (map (\<lambda>e. e # (if descends e then entriesOf ?ls useSFTP (te_path e) else []))
                                    (entriesOf ?ls useSFTP startPath)))"
  proof (intro allI impI)
    fix es
    assume r: "?run = Inr es"
    have "listable lsr useSFTP ?n startPath"
    proof (rule ccontr)
      assume "\<not> listable lsr useSFTP ?n startPath"
      with run obtain m where "?run = Inl m" by auto
      with r show False by simp
    qed
    with run r have "es = ?es" by simp
    with mem zero one
    show "(\<forall>e. e \<in> set es \<longleftrightarrow> (\<exists>k. int k \<le> maxDepth \<and> e \<in> set (at_depth ?ls useSFTP k startPath)))
              \<and> (maxDepth = 0 \<longrightarrow> es = entriesOf ?ls useSFTP startPath)
              \<and> (maxDepth = 1 \<longrightarrow>
                   es = concat (map (\<lambda>e. e # (if descends e then entriesOf ?ls useSFTP (te_path e) else []))
                                    (entriesOf ?ls useSFTP startPath)))"
      by (simp only: simp_thms)
  qed
  have state: "maxDepth = 0 \<longrightarrow>
              snd (getTreeRecursive cl useSFTP startPath 0 maxDepth s) = snd (cl_list cl startPath s)"
    by (simp add: getTreeRecursive_zero split: prod.splits sum.splits)
  from returns result state show ?thesis
    by (intro conjI)
qed

theorem tree_walk_depth_bound_witness:
  "(\<forall>p s. fst (cl_list (mem_client tree_server) p s) = sv_list tree_server p)
   \<and> getTreeRecursive (mem_client tree_server) True ''/www'' 0 0 []
       = (Inr (map (mk_entry True ''/www'') [plain_dir ''css'', plain_file ''index.html'' 5]),
          [OpList ''/www''])
   \<and> listable (sv_list tree_server) True (nat (1 + 1)) ''/www''
   \<and> fst (getTreeRecursive (mem_client tree_server) True ''/www'' 0 1 [])
       = Inr [mk_entry True ''/www'' (plain_dir ''css''),
              mk_entry True ''/www/css'' (plain_dir ''deep''),
              mk_entry True ''/www/css'' (plain_file ''site.css'' 5),
              mk_entry True ''/www'' (plain_file ''index.html'' 5)]
   \<and> listable (sv_list tree_server) False (nat (1 + 1)) ''/www''
   \<and> fst (getTreeRecursive (mem_client tree_server) False ''/www'' 0 1 [])
       = Inr [mk_entry False ''/www'' (plain_dir ''css''),
              mk_entry False ''/www/css'' (plain_dir ''deep''),
              mk_entry False ''/www/css'' (plain_file ''site.css'' 5),
              mk_entry False ''/www'' (plain_file ''index.html'' 5)]
   \<and> \<not> listable (sv_list tree_server) True (nat (2 + 1)) ''/www''
   \<and> fst (getTreeRecursive (mem_client tree_server) True ''/www'' 0 2 []) = Inl ''Permission denied''
   \<and> \<not> listable (sv_list tree_server) False (nat (0 + 1)) ''/missing''
   \<and> fst (getTreeRecursive (mem_client tree_server) False ''/missing'' 0 0 []) = Inl ''No such file''"
proof -
  have pure: "\<forall>p s. fst (cl_list (mem_client tree_server) p s) = sv_list tree_server p"
    by (simp add: mem_client_def)
  note T = tree_walk_depth_bound [OF pure]
  note ev = entriesOf_def listed_def sv_list_def tree_server_def descends_def mk_entry_def
            entry_isDir_def entry_fullPath_def plain_dir_def plain_file_def
  have two: "nat (1 + 1) = Suc (Suc 0)" and three: "nat (2 + 1) = Suc (Suc (Suc 0))"
    and one: "nat (0 + 1) = Suc 0"
    by simp_all
  have la: "listable (sv_list tree_server) True (nat (0 + 1)) ''/www''"
    by (simp only: one) (simp add: ev)
  have lb: "listable (sv_list tree_server) True (nat (1 + 1)) ''/www''"
    by (simp only: two) (simp add: ev)
  have lc: "listable (sv_list tree_server) False (nat (1 + 1)) ''/www''"
    by (simp only: two) (simp add: ev)
  have ld: "\<not> listable (sv_list tree_server) True (nat (2 + 1)) ''/www''"
    by (simp only: three) (simp add: ev)
  have le: "\<not> listable (sv_list tree_server) False (nat (0 + 1)) ''/missing''"
    by (simp only: one) (simp add: ev)
  from T [of True "''/www''" 0 "[]", THEN conjunct1] la
  obtain es where ra: "fst (getTreeRecursive (mem_client tree_server) True ''/www'' 0 0 []) = Inr es"
    by auto
  from T [of True "''/www''" 0 "[]", THEN conjunct2, THEN conjunct1, rule_format, OF ra]
  have "es = map (mk_entry True ''/www'') [plain_dir ''css'', plain_file ''index.html'' 5]"
    by (simp add: entriesOf_def listed_def sv_list_def tree_server_def)
  with ra T [of True "''/www''" 0 "[]", THEN conjunct2, THEN conjunct2]
  have a: "getTreeRecursive (mem_client tree_server) True ''/www'' 0 0 []
       = (Inr (map (mk_entry True ''/www'') [plain_dir ''css'', plain_file ''index.html'' 5]),
          [OpList ''/www''])"
    by (simp add: prod_eq_iff mem_client_def)
  from T [of True "''/www''" 1 "[]", THEN conjunct1] lb
  obtain eb where rb: "fst (getTreeRecursive (mem_client tree_server) True ''/www'' 0 1 []) = Inr eb"
    by auto
  from T [of True "''/www''" 1 "[]", THEN conjunct2, THEN conjunct1, rule_format, OF rb]
  have "eb = [mk_entry True ''/www'' (plain_dir ''css''),
              mk_entry True ''/www/css'' (plain_dir ''deep''),
              mk_entry True ''/www/css'' (plain_file ''site.css'' 5),
              mk_entry True ''/www'' (plain_file ''index.html'' 5)]"
    by (simp add: ev)
  with rb have b: "fst (getTreeRecursive (mem_client tree_server) True ''/www'' 0 1 [])
       = Inr [mk_entry True ''/www'' (plain_dir ''css''),
              mk_entry True ''/www/css'' (plain_dir ''deep''),
              mk_entry True ''/www/css'' (plain_file ''site.css'' 5),
              mk_entry True ''/www'' (plain_file ''index.html'' 5)]"
    by simp
  from T [of False "''/www''" 1 "[]", THEN conjunct1] lc
  obtain ec where rc: "fst (getTreeRecursive (mem_client tree_server) False ''/www'' 0 1 []) = Inr ec"
    by auto
  from T [of False "''/www''" 1 "[]", THEN conjunct2, THEN conjunct1, rule_format, OF rc]
  have "ec = [mk_entry False ''/www'' (plain_dir ''css''),
              mk_entry False ''/www/css'' (plain_dir ''deep''),
              mk_entry False ''/www/css'' (plain_file ''site.css'' 5),
              mk_entry False ''/www'' (plain_file ''index.html'' 5)]"
    by (simp add: ev)
  with rc have c: "fst (getTreeRecursive (mem_client tree_server) False ''/www'' 0 1 [])
       = Inr [mk_entry False ''/www'' (plain_dir ''css''),
              mk_entry False ''/www/css'' (plain_dir ''deep''),
              mk_entry False ''/www/css'' (plain_file ''site.css'' 5),
              mk_entry False ''/www'' (plain_file ''index.html'' 5)]"
    by simp
  from T [of True "''/www''" 2 "[]", THEN conjunct1] ld
  have nd: "\<not> (\<exists>es. fst (getTreeRecursive (mem_client tree_server) True ''/www'' 0 2 []) = Inr es)"
    by simp
  have d: "fst (getTreeRecursive (mem_client tree_server) True ''/www'' 0 2 []) = Inl ''Permission denied''"
    by (simp add: getTreeRecursive.simps mem_client_def ev)
  from T [of False "''/missing''" 0 "[]", THEN conjunct1] le
  have ne: "\<not> (\<exists>es. fst (getTreeRecursive (mem_client tree_server) False ''/missing'' 0 0 []) = Inr es)"
    by simp
  have e: "fst (getTreeRecursive (mem_client tree_server) False ''/missing'' 0 0 []) = Inl ''No such file''"
    by (simp add: getTreeRecursive.simps mem_client_def ev)
  from pure a lb b lc c ld d le e show ?thesis
    by (simp only: simp_thms)
qed

section \<open>The report of a run\<close>

lemma counted_loop:
  assumes "\<forall>ent \<in> set files. \<forall>lq rq st s r st' s'.
      syncEntry E cl useSFTP lp rp direction pats base ex ent lq rq st s = (r, st', s') \<longrightarrow>
      counted st' \<le> counted st + 1 + visitedEntry E cl useSFTP lp rp direction pats base ex ent lq rq s"
    and "syncLoop E cl useSFTP lp rp direction pats base ex files st s = (st', s')"
  shows "counted st' \<le> counted st + visitedLoop E cl useSFTP lp rp direction pats base ex files st s"
  using assms
proof (induction files arbitrary: st s)
  case Nil
  then show ?case by simp
next
  case (Cons ent rest)
  let ?lfp = "path_join E lp (l_name ent)" and ?rfp = "rp @ ''/'' @ l_name ent"
  from Cons.prems(1) have rest_ok: "\<forall>e \<in> set rest. \<forall>lq rq st s r st' s'.
      syncEntry E cl useSFTP lp rp direction pats base ex e lq rq st s = (r, st', s') \<longrightarrow>
      counted st' \<le> counted st + 1 + visitedEntry E cl useSFTP lp rp direction pats base ex e lq rq s"
    by simp
  show ?case
  proof (cases "shouldIgnore E ?lfp pats base")
    case True
    from Cons.prems(2) have run: "syncLoop E cl useSFTP lp rp direction pats base ex rest
           (st\<lparr>ignored := ignored st + 1\<rparr>) s = (st', s')"
      by (simp only: syncLoop_ignored [OF True])
    from Cons.IH [OF rest_ok run] visitedLoop_ignored [OF True, of cl useSFTP rp direction ex rest st s]
    show ?thesis
      by (simp add: counted_def)
  next
    case False
    obtain r st1 s1 where e: "syncEntry E cl useSFTP lp rp direction pats base ex ent ?lfp ?rfp st s = (r, st1, s1)"
      by (cases "syncEntry E cl useSFTP lp rp direction pats base ex ent ?lfp ?rfp st s")
    from Cons.prems(1) e
    have c1: "counted st1 \<le> counted st + 1 + visitedEntry E cl useSFTP lp rp direction pats base ex ent ?lfp ?rfp s"
      by simp
    show ?thesis
    proof (cases r)
      case (Inl msg)
      from e Inl have e': "syncEntry E cl useSFTP lp rp direction pats base ex ent ?lfp ?rfp st s = (Inl msg, st1, s1)"
        by simp
      from syncEntry_error_keeps_stats [OF e'] have st1: "st1 = st" .
      let ?st2 = "st\<lparr>errors := errors st @ [?lfp @ '': '' @ msg]\<rparr>"
      from Cons.prems(2) have run: "syncLoop E cl useSFTP lp rp direction pats base ex rest ?st2 s1 = (st', s')"
        by (simp only: syncLoop_step_error [OF False e'])
      have v: "visitedLoop E cl useSFTP lp rp direction pats base ex (ent # rest) st s =
               1 + visitedEntry E cl useSFTP lp rp direction pats base ex ent ?lfp ?rfp s
                 + visitedLoop E cl useSFTP lp rp direction pats base ex rest ?st2 s1"
        by (rule visitedLoop_step_error [OF False e'])
      have "counted ?st2 = counted st"
        by (simp add: counted_def)
      with Cons.IH [OF rest_ok run] v show ?thesis
        by simp
    next
      case (Inr u)
      from e Inr have e': "syncEntry E cl useSFTP lp rp direction pats base ex ent ?lfp ?rfp st s = (Inr u, st1, s1)"
        by simp
      from Cons.prems(2) have run: "syncLoop E cl useSFTP lp rp direction pats base ex rest st1 s1 = (st', s')"
        by (simp only: syncLoop_step_ok [OF False e'])
      from Cons.IH [OF rest_ok run] visitedLoop_step_ok [OF False e', of rest] c1
      show ?thesis
        by simp
    qed
  qed
qed

lemma counted_files:
  assumes loop_ok: "\<And>pats base st s st' s'.
      syncLoop E cl useSFTP lp rp direction pats base ex files st s = (st', s') \<Longrightarrow>
      counted st' \<le> counted st + visitedLoop E cl useSFTP lp rp direction pats base ex files st s"
    and run: "syncFiles E cl useSFTP (Inr files) lp rp direction ipats bpath ex s = (Inr st, s')"
  shows "counted st \<le> visitedFiles E cl useSFTP (Inr files) lp rp direction ipats bpath ex s"
proof (cases "direction = ''upload'' \<or> direction = ''both''")
  case True
  let ?P = "(let ignorePatterns1 = (case ipats of None \<Rightarrow> loadIgnorePatterns E lp | Some ps \<Rightarrow> ps)
             in if length ex > 0 then ignorePatterns1 @ ex else ignorePatterns1)"
  let ?B = "(case ipats of None \<Rightarrow> lp | Some ps \<Rightarrow> bpath)"
  from True run have "syncLoop E cl useSFTP lp rp direction ?P ?B ex files stats0 s = (st, s')"
    by (auto simp: syncFiles.simps Let_def split: prod.splits)
  from loop_ok [OF this] True show ?thesis
    by (auto simp: visitedFiles.simps Let_def counted_def stats0_def)
next
  case False
  with run show ?thesis
    by (auto simp: syncFiles.simps visitedFiles.simps Let_def counted_def stats0_def)
qed

lemma counted_entry:
  "syncEntry E cl useSFTP lp rp direction pats base ex ent lq rq st s = (r, st', s') \<Longrightarrow>
   counted st' \<le> counted st + 1 + visitedEntry E cl useSFTP lp rp direction pats base ex ent lq rq s"
proof (induction ent arbitrary: lp rp pats base lq rq st s r st' s')
  case (LFile nm localStat)
  then show ?case
    by (auto simp: counted_def split: sum.splits prod.splits if_splits)
next
  case (LDir nm subDir)
  obtain m s1 where mk: "makeRemoteDir cl useSFTP rq s = (m, s1)"
    by (cases "makeRemoteDir cl useSFTP rq s")
  show ?case
  proof (cases m)
    case (Inl msg)
    with mk LDir.prems show ?thesis
      by (simp add: counted_def)
  next
    case (Inr u)
    obtain q s2 where sub: "syncFiles E cl useSFTP subDir lq rq direction (Some pats) base ex s1 = (q, s2)"
      by (cases "syncFiles E cl useSFTP subDir lq rq direction (Some pats) base ex s1")
    show ?thesis
    proof (cases q)
      case (Inl msg)
      with mk Inr sub LDir.prems show ?thesis
        by (simp add: counted_def)
    next
      case sq: (Inr subStats)
      have bound: "counted subStats \<le> visitedFiles E cl useSFTP subDir lq rq direction (Some pats) base ex s1"
      proof (cases subDir)
        case (Inl msg)
        with sub sq show ?thesis
          by (auto simp: syncFiles.simps counted_def stats0_def split: if_splits)
      next
        case files: (Inr files)
        have ent_ok: "\<And>P B. \<forall>ent \<in> set files. \<forall>lq' rq' st s r st' s'.
            syncEntry E cl useSFTP lq rq direction P B ex ent lq' rq' st s = (r, st', s') \<longrightarrow>
            counted st' \<le> counted st + 1 + visitedEntry E cl useSFTP lq rq direction P B ex ent lq' rq' s"
          using LDir.IH [of files] files by simp
        have loop_ok: "\<And>P B st s st' s'.
            syncLoop E cl useSFTP lq rq direction P B ex files st s = (st', s') \<Longrightarrow>
            counted st' \<le> counted st + visitedLoop E cl useSFTP lq rq direction P B ex files st s"
          by (rule counted_loop [OF ent_ok])
        have run: "syncFiles E cl useSFTP (Inr files) lq rq direction (Some pats) base ex s1 = (Inr subStats, s2)"
          using sub sq files by simp
        from counted_files [OF loop_ok run] files show ?thesis
          by simp
      qed
      from mk Inr sub sq LDir.prems bound show ?thesis
        by (auto simp: counted_def)
    qed
  qed
qed

lemma entryCount_pos: "0 < entryCount ent"
  by (cases ent rule: entryCount.cases) simp_all

lemma visited_loop_le:
  assumes "\<forall>ent \<in> set files. \<forall>lq rq s.
      Suc (visitedEntry E cl useSFTP lp rp direction pats base ex ent lq rq s) \<le> entryCount ent"
  shows "visitedLoop E cl useSFTP lp rp direction pats base ex files st s \<le> sum_list (map entryCount files)"
  using assms
proof (induction files arbitrary: st s)
  case Nil
  show ?case by simp
next
  case (Cons ent rest)
  let ?lfp = "path_join E lp (l_name ent)" and ?rfp = "rp @ ''/'' @ l_name ent"
  from Cons.prems have rest_ok: "\<forall>e \<in> set rest. \<forall>lq rq s.
      Suc (visitedEntry E cl useSFTP lp rp direction pats base ex e lq rq s) \<le> entryCount e"
    by simp
  from Cons.prems have here: "Suc (visitedEntry E cl useSFTP lp rp direction pats base ex ent ?lfp ?rfp s)
      \<le> entryCount ent"
    by simp
  show ?case
  proof (cases "shouldIgnore E ?lfp pats base")
    case True
    from Cons.IH [OF rest_ok, of "st\<lparr>ignored := ignored st + 1\<rparr>" s] entryCount_pos [of ent]
    show ?thesis
      by (simp add: visitedLoop_ignored [OF True])
  next
    case False
    obtain r st1 s1 where e: "syncEntry E cl useSFTP lp rp direction pats base ex ent ?lfp ?rfp st s = (r, st1, s1)"
      by (cases "syncEntry E cl useSFTP lp rp direction pats base ex ent ?lfp ?rfp st s")
    show ?thesis
    proof (cases r)
      case (Inl msg)
      with e have e': "syncEntry E cl useSFTP lp rp direction pats base ex ent ?lfp ?rfp st s = (Inl msg, st1, s1)"
        by simp
      from Cons.IH [OF rest_ok, of "st\<lparr>errors := errors st @ [?lfp @ '': '' @ msg]\<rparr>" s1] here
      show ?thesis
        by (simp add: visitedLoop_step_error [OF False e'])
    next
      case (Inr u)
      with e have e': "syncEntry E cl useSFTP lp rp direction pats base ex ent ?lfp ?rfp st s = (Inr u, st1, s1)"
        by simp
      from Cons.IH [OF rest_ok, of st1 s1] here
      show ?thesis
        by (simp add: visitedLoop_step_ok [OF False e'])
    qed
  qed
qed

lemma visited_files_le:
  assumes "\<And>pats base st s.
      visitedLoop E cl useSFTP lp rp direction pats base ex files st s \<le> sum_list (map entryCount files)"
  shows "visitedFiles E cl useSFTP (Inr files) lp rp direction ipats bpath ex s \<le> dirCount (Inr files)"
  using assms by (simp add: visitedFiles.simps dirCount_def Let_def)

lemma visited_entry_le:
  "Suc (visitedEntry E cl useSFTP lp rp direction pats base ex ent lq rq s) \<le> entryCount ent"
proof (induction ent arbitrary: lp rp pats base lq rq s)
  case (LFile nm localStat)
  show ?case by simp
next
  case (LDir nm subDir)
  show ?case
  proof (cases subDir)
    case (Inl msg)
    then show ?thesis
      by (simp add: visitedFiles.simps Let_def split: prod.splits sum.splits)
  next
    case (Inr files)
    have ent_ok: "\<And>P B. \<forall>ent \<in> set files. \<forall>lq' rq' s.
        Suc (visitedEntry E cl useSFTP lq rq direction P B ex ent lq' rq' s) \<le> entryCount ent"
      using LDir.IH [of files] Inr by simp
    have loop_ok: "\<And>P B st s.
        visitedLoop E cl useSFTP lq rq direction P B ex files st s \<le> sum_list (map entryCount files)"
      by (rule visited_loop_le [OF ent_ok])
    have "\<And>s1. visitedFiles E cl useSFTP (Inr files) lq rq direction (Some pats) base ex s1
            \<le> sum_list (map entryCount files)"
      using visited_files_le [OF loop_ok] by (simp add: dirCount_def)
    with Inr show ?thesis
      by (simp split: prod.splits sum.splits)
  qed
qed

text \<open>
  Claim C8. For every run of \<open>syncFiles\<close> that returns a report (an upload-direction
  run in particular), \<open>uploaded + skipped + ignored\<close> is at most the number of local
  entries the run visited: every visited entry adds at most one to one of the three
  counters. The entries visited are entries of the local tree, each counted once.
\<close>

theorem report_counts_bounded_by_visited:
  assumes "syncFiles E cl useSFTP localDir lp rp direction ipats bpath ex s = (Inr st, s')"
  shows "uploaded st + skipped st + ignored st
           \<le> visitedFiles E cl useSFTP localDir lp rp direction ipats bpath ex s
         \<and> visitedFiles E cl useSFTP localDir lp rp direction ipats bpath ex s \<le> dirCount localDir"
proof (cases localDir)
  case (Inl msg)
  with assms show ?thesis
    by (auto simp: syncFiles.simps visitedFiles.simps Let_def stats0_def split: if_splits)
next
  case (Inr files)
  have loop_ok: "\<And>P B st s st' s'.
      syncLoop E cl useSFTP lp rp direction P B ex files st s = (st', s') \<Longrightarrow>
      counted st' \<le> counted st + visitedLoop E cl useSFTP lp rp direction P B ex files st s"
  proof (rule counted_loop)
    fix P B st s st' s'
    show "\<forall>ent \<in> set files. \<forall>lq rq st s r st' s'.
      syncEntry E cl useSFTP lp rp direction P B ex ent lq rq st s = (r, st', s') \<longrightarrow>
      counted st' \<le> counted st + 1 + visitedEntry E cl useSFTP lp rp direction P B ex ent lq rq s"
      by (intro ballI allI impI) (rule counted_entry)
  qed
  from assms Inr have run: "syncFiles E cl useSFTP (Inr files) lp rp direction ipats bpath ex s = (Inr st, s')"
    by simp
  from counted_files [OF loop_ok run] Inr
  have low: "uploaded st + skipped st + ignored st
           \<le> visitedFiles E cl useSFTP localDir lp rp direction ipats bpath ex s"
    by (simp add: counted_def)
  have vloop: "\<And>P B st s.
      visitedLoop E cl useSFTP lp rp direction P B ex files st s \<le> sum_list (map entryCount files)"
  proof (rule visited_loop_le)
    fix P B
    show "\<forall>ent \<in> set files. \<forall>lq rq s.
      Suc (visitedEntry E cl useSFTP lp rp direction P B ex ent lq rq s) \<le> entryCount ent"
      by (intro ballI allI) (rule visited_entry_le)
  qed
  from visited_files_le [OF vloop] Inr
  have high: "visitedFiles E cl useSFTP localDir lp rp direction ipats bpath ex s \<le> dirCount localDir"
    by simp
  from low high show ?thesis ..
qed


theorem report_counts_bounded_by_visited_witness:
  "syncFiles literal_env (mem_client demo_server) False
     (Inr [LFile ''a.txt'' (Inr 5), LFile ''b.txt'' (Inr 50), LFile ''.env'' (Inr 1),
           LDir ''sub'' (Inr [LFile ''d.txt'' (Inr 3)]), LDir ''bad'' (Inl ''EACCES'')])
     ''/site'' ''/www'' ''upload'' None [] [] []
     = (Inr \<lparr>uploaded = 2, downloaded = 0, skipped = 1,
              errors = [''/site/bad: EACCES''], ignored = 1\<rparr>,
        [OpList ''/www'', OpUploadFrom ''/site/a.txt'' ''/www/a.txt'', OpList ''/www'',
         OpEnsureDir ''/www/sub'', OpList ''/www/sub'',
         OpUploadFrom ''/site/sub/d.txt'' ''/www/sub/d.txt'', OpEnsureDir ''/www/bad''])
   \<and> visitedFiles literal_env (mem_client demo_server) False
     (Inr [LFile ''a.txt'' (Inr 5), LFile ''b.txt'' (Inr 50), LFile ''.env'' (Inr 1),
           LDir ''sub'' (Inr [LFile ''d.txt'' (Inr 3)]), LDir ''bad'' (Inl ''EACCES'')])
     ''/site'' ''/www'' ''upload'' None [] [] [] = 6
   \<and> dirCount (Inr [LFile ''a.txt'' (Inr 5), LFile ''b.txt'' (Inr 50), LFile ''.env'' (Inr 1),
           LDir ''sub'' (Inr [LFile ''d.txt'' (Inr 3)]), LDir ''bad'' (Inl ''EACCES'')]) = 6
   \<and> (2::nat) + 1 + 1 \<le> 6 \<and> (6::nat) \<le> 6"
proof -
  let ?tree = "Inr [LFile ''a.txt'' (Inr 5), LFile ''b.txt'' (Inr 50), LFile ''.env'' (Inr 1),
           LDir ''sub'' (Inr [LFile ''d.txt'' (Inr 3)]), LDir ''bad'' (Inl ''EACCES'')]"
  let ?report = "\<lparr>uploaded = 2, downloaded = 0, skipped = 1,
              errors = [''/site/bad: EACCES''], ignored = 1\<rparr>"
  have run: "syncFiles literal_env (mem_client demo_server) False ?tree
     ''/site'' ''/www'' ''upload'' None [] [] []
     = (Inr ?report,
        [OpList ''/www'', OpUploadFrom ''/site/a.txt'' ''/www/a.txt'', OpList ''/www'',
         OpEnsureDir ''/www/sub'', OpList ''/www/sub'',
         OpUploadFrom ''/site/sub/d.txt'' ''/www/sub/d.txt'', OpEnsureDir ''/www/bad''])"
    by (simp add: syncFiles.simps syncLoop.simps demo_simps loadIgnorePatterns_def
                  DEFAULT_IGNORE_PATTERNS_def Let_def)
  have vis: "visitedFiles literal_env (mem_client demo_server) False ?tree
     ''/site'' ''/www'' ''upload'' None [] [] [] = 6"
    by (simp add: visitedFiles.simps visitedLoop.simps syncFiles.simps syncLoop.simps demo_simps
                  loadIgnorePatterns_def DEFAULT_IGNORE_PATTERNS_def Let_def)
  have cnt: "dirCount ?tree = 6"
    by (simp add: dirCount_def)
  from report_counts_bounded_by_visited [OF run] vis cnt
  have "(2::nat) + 1 + 1 \<le> 6 \<and> (6::nat) \<le> 6"
    by simp
  with run vis cnt show ?thesis
    by (simp only: simp_thms)
qed

section \<open>Download direction\<close>

lemma downloaded_loop:
  assumes "\<forall>ent \<in> set files. \<forall>lq rq st s r st' s'.
      syncEntry E cl useSFTP lp rp direction pats base ex ent lq rq st s = (r, st', s') \<longrightarrow>
      downloaded st' = downloaded st"
    and "syncLoop E cl useSFTP lp rp direction pats base ex files st s = (st', s')"
  shows "downloaded st' = downloaded st"
  using assms
proof (induction files arbitrary: st s)
  case Nil
  then show ?case by simp
next
  case (Cons ent rest)
  let ?lfp = "path_join E lp (l_name ent)" and ?rfp = "rp @ ''/'' @ l_name ent"
  from Cons.prems(1) have rest_ok: "\<forall>e \<in> set rest. \<forall>lq rq st s r st' s'.
      syncEntry E cl useSFTP lp rp direction pats base ex e lq rq st s = (r, st', s') \<longrightarrow>
      downloaded st' = downloaded st"
    by simp
  show ?case
  proof (cases "shouldIgnore E ?lfp pats base")
    case True
    from Cons.prems(2) have run: "syncLoop E cl useSFTP lp rp direction pats base ex rest
           (st\<lparr>ignored := ignored st + 1\<rparr>) s = (st', s')"
      by (simp only: syncLoop_ignored [OF True])
    from Cons.IH [OF rest_ok run] show ?thesis
      by simp
  next
    case False
    obtain r st1 s1 where e: "syncEntry E cl useSFTP lp rp direction pats base ex ent ?lfp ?rfp st s = (r, st1, s1)"
      by (cases "syncEntry E cl useSFTP lp rp direction pats base ex ent ?lfp ?rfp st s")
    from Cons.prems(1) [rule_format, of ent ?lfp ?rfp st s r st1 s1] e
    have d1: "downloaded st1 = downloaded st"
      by simp
    show ?thesis
    proof (cases r)
      case (Inl msg)
      from e Inl have e': "syncEntry E cl useSFTP lp rp direction pats base ex ent ?lfp ?rfp st s = (Inl msg, st1, s1)"
        by simp
      from Cons.prems(2) have run: "syncLoop E cl useSFTP lp rp direction pats base ex rest
              (st\<lparr>errors := errors st @ [?lfp @ '': '' @ msg]\<rparr>) s1 = (st', s')"
        by (simp only: syncLoop_step_error [OF False e'])
      from Cons.IH [OF rest_ok run] show ?thesis
        by simp
    next
      case (Inr u)
      from e Inr have e': "syncEntry E cl useSFTP lp rp direction pats base ex ent ?lfp ?rfp st s = (Inr u, st1, s1)"
        by simp
      from Cons.prems(2) have run: "syncLoop E cl useSFTP lp rp direction pats base ex rest st1 s1 = (st', s')"
        by (simp only: syncLoop_step_ok [OF False e'])
      from Cons.IH [OF rest_ok run] d1 show ?thesis
        by simp
    qed
  qed
qed

lemma downloaded_files:
  assumes loop_ok: "\<And>pats base st s st' s'.
      syncLoop E cl useSFTP lp rp direction pats base ex files st s = (st', s') \<Longrightarrow>
      downloaded st' = downloaded st"
    and run: "syncFiles E cl useSFTP (Inr files) lp rp direction ipats bpath ex s = (Inr st, s')"
  shows "downloaded st = 0"
proof (cases "direction = ''upload'' \<or> direction = ''both''")
  case True
  from run syncFiles_upload [OF True, of E cl useSFTP files lp rp ipats bpath ex s]
  have "syncLoop E cl useSFTP lp rp direction (effectivePatterns E lp ipats ex)
          (effectiveBase lp ipats bpath) ex files stats0 s = (st, s')"
    by (simp split: prod.splits)
  from loop_ok [OF this] show ?thesis
    by (simp add: stats0_def)
next
  case False
  with run show ?thesis
    by (auto simp: syncFiles.simps Let_def stats0_def)
qed

lemma downloaded_entry:
  "syncEntry E cl useSFTP lp rp direction pats base ex ent lq rq st s = (r, st', s') \<Longrightarrow>
   downloaded st' = downloaded st"
proof (induction ent arbitrary: lp rp pats base lq rq st s r st' s')
  case (LFile nm localStat)
  then show ?case
    by (auto split: sum.splits prod.splits if_splits)
next
  case (LDir nm subDir)
  obtain m s1 where mk: "makeRemoteDir cl useSFTP rq s = (m, s1)"
    by (cases "makeRemoteDir cl useSFTP rq s")
  show ?case
  proof (cases m)
    case (Inl msg)
    with mk LDir.prems show ?thesis
      by simp
  next
    case (Inr u)
    obtain q s2 where sub: "syncFiles E cl useSFTP subDir lq rq direction (Some pats) base ex s1 = (q, s2)"
      by (cases "syncFiles E cl useSFTP subDir lq rq direction (Some pats) base ex s1")
    show ?thesis
    proof (cases q)
      case (Inl msg)
      with mk Inr sub LDir.prems show ?thesis
        by simp
    next
      case sq: (Inr subStats)
      have zero: "downloaded subStats = 0"
      proof (cases subDir)
        case (Inl msg)
        with sub sq show ?thesis
          by (auto simp: syncFiles.simps stats0_def split: if_splits)
      next
        case files: (Inr files)
        have ent_ok: "\<And>P B. \<forall>ent \<in> set files. \<forall>lq' rq' st s r st' s'.
            syncEntry E cl useSFTP lq rq direction P B ex ent lq' rq' st s = (r, st', s') \<longrightarrow>
            downloaded st' = downloaded st"
          using LDir.IH [of files] files by simp
        have loop_ok: "\<And>P B st s st' s'.
            syncLoop E cl useSFTP lq rq direction P B ex files st s = (st', s') \<Longrightarrow>
            downloaded st' = downloaded st"
          by (rule downloaded_loop [OF ent_ok])
        have run: "syncFiles E cl useSFTP (Inr files) lq rq direction (Some pats) base ex s1 = (Inr subStats, s2)"
          using sub sq files by simp
        from downloaded_files [OF loop_ok run] show ?thesis .
      qed
      from mk Inr sub sq LDir.prems zero show ?thesis
        by auto
    qed
  qed
qed

text \<open>
  Claim C1 does not hold of the code: \<open>syncFiles\<close> has no download pass. With direction
  \<open>download\<close> it returns the empty report without any call to the client, and in no
  direction (so not in the second pass that \<open>both\<close> should make) is \<open>downloaded\<close> ever
  incremented. The last conjunct runs it against a server holding three files and an
  empty local directory: nothing is listed and nothing is fetched.
\<close>

theorem download_direction_does_nothing:
  "syncFiles E cl useSFTP localDir lp rp ''download'' ipats bpath ex s = (Inr stats0, s)
   \<and> (syncFiles E cl useSFTP localDir lp rp direction ipats bpath ex s = (Inr st, s')
        \<longrightarrow> downloaded st = 0)
   \<and> syncFiles literal_env (mem_client demo_server) True (Inr []) ''/site'' ''/www'' ''download'' None [] [] []
       = (Inr \<lparr>uploaded = 0, downloaded = 0, skipped = 0, errors = [], ignored = 0\<rparr>, [])"
proof (intro conjI impI)
  show "syncFiles E cl useSFTP localDir lp rp ''download'' ipats bpath ex s = (Inr stats0, s)"
    by (simp add: syncFiles.simps Let_def)
next
  assume run: "syncFiles E cl useSFTP localDir lp rp direction ipats bpath ex s = (Inr st, s')"
  show "downloaded st = 0"
  proof (cases localDir)
    case (Inl msg)
    with run show ?thesis
      by (auto simp: syncFiles.simps Let_def stats0_def split: if_splits)
  next
    case (Inr files)
    have loop_ok: "\<And>P B st s st' s'.
        syncLoop E cl useSFTP lp rp direction P B ex files st s = (st', s') \<Longrightarrow>
        downloaded st' = downloaded st"
    proof (rule downloaded_loop)
      fix P B st s st' s'
      show "\<forall>ent \<in> set files. \<forall>lq rq st s r st' s'.
        syncEntry E cl useSFTP lp rp direction P B ex ent lq rq st s = (r, st', s') \<longrightarrow>
        downloaded st' = downloaded st"
        by (intro ballI allI impI) (rule downloaded_entry)
    qed
    from run Inr have "syncFiles E cl useSFTP (Inr files) lp rp direction ipats bpath ex s = (Inr st, s')"
      by simp
    from downloaded_files [OF loop_ok this] show ?thesis .
  qed
next
  show "syncFiles literal_env (mem_client demo_server) True (Inr []) ''/site'' ''/www'' ''download'' None [] [] []
       = (Inr \<lparr>uploaded = 0, downloaded = 0, skipped = 0, errors = [], ignored = 0\<rparr>, [])"
    by (simp add: syncFiles.simps Let_def stats0_def)
qed

theorem download_direction_does_nothing_witness:
  "syncFiles literal_env (mem_client demo_server) True (Inr [LFile ''a.txt'' (Inr 5)])
     ''/site'' ''/www'' ''both'' None [] [] []
     = (Inr \<lparr>uploaded = 1, downloaded = 0, skipped = 0, errors = [], ignored = 0\<rparr>,
        [OpStat ''/www/a.txt'', OpPut (FromPath ''/site/a.txt'') ''/www/a.txt''])
   \<and> downloaded \<lparr>uploaded = 1, downloaded = 0, skipped = 0, errors = [], ignored = 0\<rparr> = 0"
proof -
  have run: "syncFiles literal_env (mem_client demo_server) True (Inr [LFile ''a.txt'' (Inr 5)])
     ''/site'' ''/www'' ''both'' None [] [] []
     = (Inr \<lparr>uploaded = 1, downloaded = 0, skipped = 0, errors = [], ignored = 0\<rparr>,
        [OpStat ''/www/a.txt'', OpPut (FromPath ''/site/a.txt'') ''/www/a.txt''])"
    by (simp add: syncFiles.simps syncLoop.simps demo_simps loadIgnorePatterns_def
                  DEFAULT_IGNORE_PATTERNS_def Let_def)
  from download_direction_does_nothing [THEN conjunct2, THEN conjunct1, rule_format, OF run]
  have "downloaded \<lparr>uploaded = 1, downloaded = 0, skipped = 0, errors = [], ignored = 0\<rparr> = 0" .
  with run show ?thesis
    by (simp only: simp_thms)
qed

end
